theory Spec2Isabelle
  imports Complex_Main "HOL-Library.AList"
begin

section \<open>The mcsqs caller of pymatgen: \<open>pymatgen/command_line/mcsqs_caller.py\<close>\<close>

text \<open>
  The module drives two external binaries (\<open>mcsqs\<close> and \<open>str2cif\<close>) through
  \<open>subprocess.Popen\<close>, the process-wide working directory and files with fixed names.
  The embedding passes a \<open>world\<close> (working directory, existing directories, directory
  contents, and the trace of process operations) through every step and returns it with
  the result; a Python exception is the \<open>Inl\<close> of a sum. What the external binaries and
  the library calls compute is not in the module, so it enters as the fields of an
  \<open>env\<close> record: the theorems hold for every such environment.
\<close>

subsection \<open>Python values\<close>

text \<open>
  A Python \<open>float\<close>: a finite value is the rational it denotes. Only equality of floats,
  the test \<open>x % 1\<close> and the product with an atom count are used by the module.
\<close>

datatype pyfloat = Finite rat | PosInf | NegInf | NaN

datatype pynum = PyInt int | PyFloat pyfloat

text \<open>The exceptions the module raises or lets through (messages without their formatting).\<close>

datatype error =
    ValueError string
  | TimeoutError string
  | Exception string
  | TypeError
  | FileNotFoundError
  | IndexError
  | StructureParseError
  | LinAlgError

text \<open>
  \<open>Union[float, Literal["Perfect_match"]]\<close>, the type of \<open>Sqs.objective_function\<close>.
\<close>

datatype objective = Perfect_match | Numeric pyfloat

subsection \<open>The structure type\<close>

text \<open>
  Modelled from the spec: the crystal-structure type \<open>pymatgen.Structure\<close>, which is
  not part of the module. The spec treats it as a value with "at least one site with
  fractional occupancy" when disordered, an atom count, and the operation
  "scale by factor", where a 3-vector \<open>[a, b, c]\<close> gives \<open>a * b * c\<close> times the atoms.
  A site is its list of species with their occupancies. A supercell has as many cells
  as the absolute value of the determinant \<open>a * b * c\<close> of its scaling matrix, so that
  is the number of copies for a negative product too, and for the product \<open>0\<close> there is
  no supercell: the library raises on the singular matrix.
\<close>

type_synonym site = "(string \<times> rat) list"

datatype "structure" = Structure (sites: "site list")

definition has_partial_occupancy :: "site \<Rightarrow> bool" where
  "has_partial_occupancy s = list_ex (\<lambda>(sp, occ). occ \<noteq> 1) s"

definition is_ordered :: "structure \<Rightarrow> bool" where
  "is_ordered st = (\<not> list_ex has_partial_occupancy (sites st))"

text \<open>\<open>len(structure)\<close>\<close>

definition num_sites :: "structure \<Rightarrow> nat" where
  "num_sites st = length (sites st)"

text \<open>\<open>structure * [a, b, c]\<close>: every site is repeated once per cell of the supercell.\<close>

definition scale_structure :: "structure \<Rightarrow> int \<times> int \<times> int \<Rightarrow> error + structure" where
  "scale_structure st v =
     (case v of (a, b, c) \<Rightarrow>
        if a * b * c = 0 then Inl LinAlgError
        else Inr (Structure (concat (map (\<lambda>s. replicate (nat \<bar>a * b * c\<bar>) s) (sites st)))))"

subsection \<open>Strings\<close>

abbreviation LF :: char where "LF \<equiv> CHR 0x0A"
abbreviation CR :: char where "CR \<equiv> CHR 0x0D"

text \<open>
  \<open>str(n)\<close> and \<open>'{}'.format(n)\<close> for a natural number: its decimal digits.
\<close>

definition digit_char :: "nat \<Rightarrow> char" where
  "digit_char d = char_of (48 + d)"

fun string_of_nat :: "nat \<Rightarrow> string" where
  "string_of_nat n =
     (if n < 10 then [digit_char n]
      else string_of_nat (n div 10) @ [digit_char (n mod 10)])"

declare string_of_nat.simps [simp del]

text \<open>
  A file opened in text mode reads with universal newlines: \<open>\r\n\<close> and a lone \<open>\r\<close>
  arrive as \<open>\n\<close>.
\<close>

fun universal_newlines :: "string \<Rightarrow> string" where
  "universal_newlines [] = []"
| "universal_newlines [c] = [if c = CR then LF else c]"
| "universal_newlines (c # d # ds) =
     (if c = CR \<and> d = LF then LF # universal_newlines ds
      else if c = CR then LF # universal_newlines (d # ds)
      else c # universal_newlines (d # ds))"

text \<open>\<open>f.readlines()\<close>: the lines, each with its terminating \<open>\n\<close> when it has one.\<close>

fun split_lines :: "string \<Rightarrow> string list" where
  "split_lines [] = []"
| "split_lines (c # cs) =
     (if c = LF then [c] # split_lines cs
      else (case split_lines cs of
              [] \<Rightarrow> [[c]]
            | l # ls \<Rightarrow> (c # l) # ls))"

definition readlines :: "string \<Rightarrow> string list" where
  "readlines txt = split_lines (universal_newlines txt)"

text \<open>\<open>s.split(sep)\<close> for a one-character separator: never an empty list.\<close>

fun split_on :: "char \<Rightarrow> string \<Rightarrow> string list" where
  "split_on sep [] = [[]]"
| "split_on sep (c # cs) =
     (if c = sep then [] # split_on sep cs
      else (case split_on sep cs of
              [] \<Rightarrow> [[c]]
            | l # ls \<Rightarrow> (c # l) # ls))"

text \<open>
  \<open>s.strip()\<close>: the characters below 256 for which \<open>str.isspace\<close> holds are dropped
  from both ends.
\<close>

definition is_space :: "char \<Rightarrow> bool" where
  "is_space c = ((of_char c :: nat) \<in> {9, 10, 11, 12, 13, 28, 29, 30, 31, 32, 133, 160})"

definition strip :: "string \<Rightarrow> string" where
  "strip s = rev (dropWhile is_space (rev (dropWhile is_space s)))"

text \<open>
  \<open>lines[-1].split('=')[-1].strip()\<close>; \<open>lines[-1]\<close> raises \<open>IndexError\<close> on an
  empty file.
\<close>

definition last_token :: "string \<Rightarrow> error + string" where
  "last_token txt =
     (case readlines txt of
        [] \<Rightarrow> Inl IndexError
      | l # ls \<Rightarrow> Inr (strip (last (split_on CHR ''='' (last (l # ls))))))"

subsection \<open>File names and glob patterns\<close>

datatype glob_tok = Lit char | Star | Range char char

text \<open>
  \<open>fnmatch\<close> on a whole name: \<open>*\<close> is any run of characters, \<open>[lo-hi]\<close> one character
  in the range, anything else itself.
\<close>

fun glob_match :: "glob_tok list \<Rightarrow> string \<Rightarrow> bool" where
  "glob_match [] [] = True"
| "glob_match [] (c # cs) = False"
| "glob_match (Star # ps) [] = glob_match ps []"
| "glob_match (Star # ps) (c # cs) = (glob_match ps (c # cs) \<or> glob_match (Star # ps) cs)"
| "glob_match (Range lo hi # ps) [] = False"
| "glob_match (Range lo hi # ps) (c # cs) =
     ((of_char lo :: nat) \<le> of_char c \<and> (of_char c :: nat) \<le> of_char hi \<and> glob_match ps cs)"
| "glob_match (Lit a # ps) [] = False"
| "glob_match (Lit a # ps) (c # cs) = (a = c \<and> glob_match ps cs)"

text \<open>The pattern \<open>'bestsqs*[0-9]*'\<close> of \<open>_parse_sqs_path\<close>.\<close>

definition bestsqs_pattern :: "glob_tok list" where
  "bestsqs_pattern = map Lit ''bestsqs'' @ [Star, Range CHR ''0'' CHR ''9'', Star]"

subsection \<open>The file system, the processes and the environment\<close>

text \<open>A directory is the association list of its file names and their contents.\<close>

type_synonym entries = "(string \<times> string) list"

text \<open>
  One argument of a command line: a literal, \<open>"-flag {}".format(v)\<close>, or
  \<open>"-" + str(num) + "=" + str(cutoff)\<close>. The value is kept instead of its decimal text.
\<close>

datatype arg = Word string | Fmt string pynum | ClusterArg int pynum

text \<open>
  What the module does to processes, in order: \<open>Popen(cmd)\<close>,
  \<open>Popen("str2cif <in >out", shell=True, cwd=dir)\<close>, and on the timeout path
  \<open>p.kill()\<close> and the reaping \<open>p.communicate()\<close> of the search process with the
  given position in \<open>mcsqs_find_sqs_processes\<close>.
\<close>

datatype event =
    Popen "arg list"
  | Shell_str2cif string string string
  | Kill nat
  | Reap nat

text \<open>
  How the loop of waits ended: all processes had ended at the given time, or the wait
  on the process at the given position raised \<open>TimeoutExpired\<close> at the given time.
  Time is in seconds from the start of the first wait.
\<close>

datatype wait_result = Completed real | Expired real nat

record world =
  cwd :: string
  dirs :: "string list"
  fs :: "string \<Rightarrow> entries"
  trace :: "event list"

text \<open>
  The environment: \<open>os.cpu_count()\<close>; the directory \<open>tempfile.mkdtemp()\<close> makes;
  \<open>Structure.to\<close> and \<open>Structure.from_file\<close> (\<open>None\<close> when it raises); \<open>float(s)\<close>
  (\<open>None\<close> when it raises); the output of \<open>str2cif\<close> for an input; what cluster
  generation, the search processes (given their command lines and how the waiting
  ended) and \<open>mcsqs -best\<close> leave in the run directory; the time at which each
  search process ends when left alone (\<open>None\<close>: never); and the product of a float
  and an atom count, as binary64 arithmetic rounds it.
\<close>

record env =
  cpu_count :: "int option"
  mkdtemp :: string
  to_file :: "structure \<Rightarrow> string"
  from_file :: "string \<Rightarrow> structure option"
  float_of :: "string \<Rightarrow> pyfloat option"
  str2cif :: "string \<Rightarrow> string"
  generate_clusters :: "arg list \<Rightarrow> entries \<Rightarrow> entries"
  search_output :: "arg list list \<Rightarrow> wait_result \<Rightarrow> entries \<Rightarrow> entries"
  select_best :: "entries \<Rightarrow> entries"
  finish_time :: "nat \<Rightarrow> real option"
  float_times :: "pyfloat \<Rightarrow> nat \<Rightarrow> pyfloat"

subsection \<open>Files\<close>

text \<open>
  A path is read against the working directory and normalised, as \<open>os.chdir\<close>,
  \<open>open\<close> and \<open>Path.resolve\<close> do: the components of a relative path follow those of
  the working directory, empty components and \<open>.\<close> are dropped, and \<open>..\<close> drops the
  component before it (there are no symbolic links). So \<open>.\<close>, \<open>./\<close> and the empty
  path are the working directory, and \<open>/run/\<close> is \<open>/run\<close>.
\<close>

fun collapse :: "string list \<Rightarrow> string list \<Rightarrow> string list" where
  "collapse acc [] = acc"
| "collapse acc (c # cs) =
     (if c = [] \<or> c = ''.'' then collapse acc cs
      else if c = ''..'' then collapse (butlast acc) cs
      else collapse (acc @ [c]) cs)"

definition join_path :: "string list \<Rightarrow> string" where
  "join_path cs = (if cs = [] then ''/'' else concat (map (\<lambda>c. CHR ''/'' # c) cs))"

definition resolve :: "string \<Rightarrow> string \<Rightarrow> string" where
  "resolve wd p =
     join_path (collapse []
       ((if p \<noteq> [] \<and> hd p = CHR ''/'' then [] else split_on CHR ''/'' wd)
        @ split_on CHR ''/'' p))"

definition read_file :: "world \<Rightarrow> string \<Rightarrow> string \<Rightarrow> string option" where
  "read_file w d name = (if d \<in> set (dirs w) then map_of (fs w d) name else None)"

text \<open>\<open>os.path.exists(name)\<close>, for a name relative to the working directory.\<close>

definition path_exists :: "world \<Rightarrow> string \<Rightarrow> bool" where
  "path_exists w name = (read_file w (cwd w) name \<noteq> None)"

definition write_file :: "string \<Rightarrow> string \<Rightarrow> string \<Rightarrow> world \<Rightarrow> world" where
  "write_file d name txt w = w\<lparr>fs := (fs w)(d := AList.update name txt (fs w d))\<rparr>"

text \<open>
  \<open>len(list(path.glob('bestsqs*[0-9]*')))\<close>: the names of the directory that match;
  a directory that does not exist has none.
\<close>

definition matching_names :: "world \<Rightarrow> string \<Rightarrow> string list" where
  "matching_names w d =
     (if d \<in> set (dirs w)
      then filter (glob_match bestsqs_pattern) (remdups (map fst (fs w d)))
      else [])"

subsection \<open>\<open>_parse_sqs_path\<close>\<close>

record sqs =
  bestsqs :: "structure"
  objective_function :: objective
  allsqs :: "(structure \<times> objective) list"
  directory :: string

text \<open>
  \<open>Popen("str2cif < inp > out", shell=True, cwd=d).communicate()\<close>: the shell opens
  \<open>inp\<close> first and gives up when it is missing, so \<open>out\<close> is written only when \<open>inp\<close>
  exists. The exit status is never looked at.
\<close>

definition shell_str2cif :: "env \<Rightarrow> string \<Rightarrow> string \<Rightarrow> string \<Rightarrow> world \<Rightarrow> world" where
  "shell_str2cif env d inp out w =
     (let w' = w\<lparr>trace := trace w @ [Shell_str2cif d inp out]\<rparr>
      in case map_of (fs w d) inp of
           None \<Rightarrow> w'
         | Some txt \<Rightarrow> write_file d out (str2cif env txt) w')"

text \<open>\<open>Structure.from_file\<close> of a file.\<close>

definition load_structure :: "env \<Rightarrow> world \<Rightarrow> string \<Rightarrow> string \<Rightarrow> error + structure" where
  "load_structure env w d name =
     (case read_file w d name of
        None \<Rightarrow> Inl FileNotFoundError
      | Some txt \<Rightarrow>
          (case from_file env txt of
             None \<Rightarrow> Inl StructureParseError
           | Some st \<Rightarrow> Inr st))"

text \<open>\<open>open(...)\<close>, \<open>readlines\<close> and the token after the last \<open>=\<close> of the last line.\<close>

definition load_token :: "world \<Rightarrow> string \<Rightarrow> string \<Rightarrow> error + string" where
  "load_token w d name =
     (case read_file w d name of
        None \<Rightarrow> Inl FileNotFoundError
      | Some txt \<Rightarrow> last_token txt)"

definition to_float :: "env \<Rightarrow> string \<Rightarrow> error + objective" where
  "to_float env tok =
     (case float_of env tok of
        None \<Rightarrow> Inl (ValueError ''could not convert string to float'')
      | Some x \<Rightarrow> Inr (Numeric x))"

text \<open>
  Lines 209 to 215: the objective function of \<open>bestcorr.out\<close>, the text
  \<open>Perfect_match\<close> kept as it is.
\<close>

definition best_objective :: "env \<Rightarrow> string \<Rightarrow> error + objective" where
  "best_objective env tok =
     (if tok \<noteq> ''Perfect_match'' then to_float env tok else Inr Perfect_match)"

text \<open>
  Lines 238 to 242: the objective function of one instance, the text \<open>Perfect_match\<close>
  replaced by the objective function of the best.
\<close>

definition instance_objective :: "env \<Rightarrow> objective \<Rightarrow> string \<Rightarrow> error + objective" where
  "instance_objective env best tok =
     (if tok = ''Perfect_match'' then Inr best else to_float env tok)"

text \<open>
  The body of the loop for \<open>i\<close> (lines 221 to 243). The converter runs in \<open>path\<close> and the
  report is opened in \<open>path\<close>, but \<open>Structure.from_file(sqs_cif)\<close> is given the bare file
  name, which is read in the working directory.
\<close>

definition parse_instance ::
  "env \<Rightarrow> string \<Rightarrow> objective \<Rightarrow> nat \<Rightarrow> world \<Rightarrow> (error + structure \<times> objective) \<times> world" where
  "parse_instance env d best i w =
     (let sqs_out = ''bestsqs'' @ string_of_nat (i + 1) @ ''.out'';
          sqs_cif = ''bestsqs'' @ string_of_nat (i + 1) @ ''.cif'';
          corr_out = ''bestcorr'' @ string_of_nat (i + 1) @ ''.out''
      in if d \<notin> set (dirs w) then (Inl FileNotFoundError, w)
         else
           let w1 = shell_str2cif env d sqs_out sqs_cif w
           in case load_structure env w1 (cwd w1) sqs_cif of
                Inl e \<Rightarrow> (Inl e, w1)
              | Inr st \<Rightarrow>
                  (case load_token w1 d corr_out of
                     Inl e \<Rightarrow> (Inl e, w1)
                   | Inr tok \<Rightarrow>
                       (case instance_objective env best tok of
                          Inl e \<Rightarrow> (Inl e, w1)
                        | Inr obj \<Rightarrow> (Inr (st, obj), w1))))"

text \<open>The loop \<open>for i in range(instances)\<close>, with \<open>allsqs\<close> as accumulator.\<close>

fun parse_instances ::
  "env \<Rightarrow> string \<Rightarrow> objective \<Rightarrow> nat list \<Rightarrow> (structure \<times> objective) list \<Rightarrow> world
     \<Rightarrow> (error + (structure \<times> objective) list) \<times> world" where
  "parse_instances env d best [] acc w = (Inr acc, w)"
| "parse_instances env d best (i # is) acc w =
     (case parse_instance env d best i w of
        (Inl e, w') \<Rightarrow> (Inl e, w')
      | (Inr x, w') \<Rightarrow> parse_instances env d best is (acc @ [x]) w')"

definition parse_sqs_path :: "env \<Rightarrow> string \<Rightarrow> world \<Rightarrow> (error + sqs) \<times> world" where
  "parse_sqs_path env path w =
     (let d = resolve (cwd w) path;
          instances = length (matching_names w d)
      in if d \<notin> set (dirs w) then (Inl FileNotFoundError, w)
         else
           let w1 = shell_str2cif env d ''bestsqs.out'' ''bestsqs.cif'' w
           in case load_structure env w1 d ''bestsqs.cif'' of
                Inl e \<Rightarrow> (Inl e, w1)
              | Inr best \<Rightarrow>
                  (case load_token w1 d ''bestcorr.out'' of
                     Inl e \<Rightarrow> (Inl e, w1)
                   | Inr tok \<Rightarrow>
                       (case best_objective env tok of
                          Inl e \<Rightarrow> (Inl e, w1)
                        | Inr obj \<Rightarrow>
                            (case parse_instances env d obj [0..<instances] [] w1 of
                               (Inl e, w2) \<Rightarrow> (Inl e, w2)
                             | (Inr every, w2) \<Rightarrow>
                                 (Inr \<lparr>bestsqs = best, objective_function = obj,
                                       allsqs = every, directory = d\<rparr>, w2)))))"

subsection \<open>\<open>run_mcsqs\<close>\<close>

text \<open>
  \<open>scaling: Union[int, List[int]]\<close>, where \<open>isinstance(scaling, (int, float))\<close> also
  lets a float through; the list is the "sequence of three scaling factors" of the
  docstring.
\<close>

datatype scaling = IntScaling int | FloatScaling pyfloat | VectorScaling int int int

text \<open>
  The truth value of \<open>scaling % 1\<close> on a scalar: the remainder of an integer is \<open>0\<close>;
  that of a finite float is zero exactly when the float is a whole number; that of an
  infinity or a NaN is a NaN, which is true.
\<close>

fun mod_1_is_true :: "scaling \<Rightarrow> bool" where
  "mod_1_is_true (IntScaling n) = (n mod 1 \<noteq> 0)"
| "mod_1_is_true (FloatScaling (Finite q)) = (q - of_int \<lfloor>q\<rfloor> \<noteq> 0)"
| "mod_1_is_true (FloatScaling x) = True"
| "mod_1_is_true (VectorScaling a b c) = False"

text \<open>
  \<open>scaling * num_atoms\<close> for a scalar: exact for an \<open>int\<close>, the rounded product of the
  environment for a float (the vector case never gets here).
\<close>

fun times_atoms :: "env \<Rightarrow> scaling \<Rightarrow> nat \<Rightarrow> pynum" where
  "times_atoms env (IntScaling n) k = PyInt (n * int k)"
| "times_atoms env (FloatScaling x) k = PyFloat (float_times env x k)"
| "times_atoms env (VectorScaling a b c) k = PyInt (int k)"

text \<open>The text written to \<open>sqscell.out\<close> (lines 100 to 103).\<close>

definition identity_cell :: string where
  "identity_cell =
     ''1'' @ [LF] @ ''1 0 0'' @ [LF] @ ''0 1 0'' @ [LF] @ ''0 0 1'' @ [LF]"

text \<open>\<open>Popen(cmd)\<close> of a process that is not waited for yet.\<close>

definition popen :: "arg list \<Rightarrow> world \<Rightarrow> world" where
  "popen cmd w = w\<lparr>trace := trace w @ [Popen cmd]\<rparr>"

text \<open>
  Lines 86 to 88: the run directory is the one \<open>tempfile.mkdtemp()\<close> makes when
  \<open>not directory\<close> holds (for \<open>None\<close> and for the empty string), and the given one
  otherwise.
\<close>

definition run_directory :: "env \<Rightarrow> string option \<Rightarrow> world \<Rightarrow> string" where
  "run_directory env dir w =
     resolve (cwd w) (if dir = None \<or> dir = Some [] then mkdtemp env else the dir)"

definition make_run_directory :: "env \<Rightarrow> string option \<Rightarrow> world \<Rightarrow> world" where
  "make_run_directory env dir w =
     (if dir = None \<or> dir = Some []
      then w\<lparr>dirs := run_directory env dir w # dirs w,
             fs := (fs w)(run_directory env dir w := [])\<rparr>
      else w)"

text \<open>
  Lines 85 to 107: the run directory becomes the working directory (\<open>os.chdir\<close> raises
  for a directory that does not exist), then the scalar scaling is checked, or
  \<open>sqscell.out\<close> is written and the structure is expanded (line 104, which may raise),
  then \<open>rndstr.in\<close> is written. The result is \<open>mcsqs_find_sqs_cmd\<close>.
\<close>

definition prepare_input ::
  "env \<Rightarrow> structure \<Rightarrow> scaling \<Rightarrow> string option \<Rightarrow> world \<Rightarrow> (error + arg list) \<times> world" where
  "prepare_input env st scaling dir w =
     (let num_atoms = num_sites st;
          w1 = make_run_directory env dir w;
          target = run_directory env dir w
      in if target \<notin> set (dirs w1) then (Inl FileNotFoundError, w1)
         else
           let w2 = w1\<lparr>cwd := target\<rparr>
           in case scaling of
                VectorScaling a b c \<Rightarrow>
                  (let w3 = write_file target ''sqscell.out'' identity_cell w2
                   in case scale_structure st (a, b, c) of
                        Inl e \<Rightarrow> (Inl e, w3)
                      | Inr st' \<Rightarrow>
                          (let w4 = write_file target ''rndstr.in'' (to_file env st') w3
                           in (Inr [Word ''mcsqs'', Word ''-rc'',
                                    Fmt ''-n'' (PyInt (int num_atoms))], w4)))
              | _ \<Rightarrow>
                  if mod_1_is_true scaling
                  then (Inl (ValueError ''Scaling should be an integer, not {}''), w2)
                  else
                    (let w4 = write_file target ''rndstr.in'' (to_file env st) w2
                     in (Inr [Word ''mcsqs'', Fmt ''-n'' (times_atoms env scaling num_atoms)], w4)))"

text \<open>
  Lines 110 to 118: one flag per cluster size, in the order of the dictionary, and the
  run of the cluster generation, which is waited for.
\<close>

definition generate_clusters_cmd :: "(int \<times> pynum) list \<Rightarrow> arg list" where
  "generate_clusters_cmd clusters =
     Word ''mcsqs'' # map (\<lambda>(num, cutoff). ClusterArg num cutoff) clusters"

definition run_generate_clusters :: "env \<Rightarrow> (int \<times> pynum) list \<Rightarrow> world \<Rightarrow> world" where
  "run_generate_clusters env clusters w =
     (let cmd = generate_clusters_cmd clusters;
          w1 = popen cmd w
      in w1\<lparr>fs := (fs w1)(cwd w1 := generate_clusters env cmd (fs w1 (cwd w1)))\<rparr>)"

text \<open>Lines 121 to 127.\<close>

record tuning =
  temperature :: pynum
  wr :: pynum
  wn :: pynum
  wd :: pynum
  tol :: pynum

definition add_ons :: "tuning \<Rightarrow> arg list" where
  "add_ons tu =
     [Fmt ''-T'' (temperature tu), Fmt ''-wr'' (wr tu), Fmt ''-wn'' (wn tu),
      Fmt ''-wd'' (wd tu), Fmt ''-tol'' (tol tu)]"

text \<open>Lines 129 to 141: the command lines of the search processes, in launch order.\<close>

definition find_sqs_cmds :: "arg list \<Rightarrow> tuning \<Rightarrow> int \<Rightarrow> arg list list" where
  "find_sqs_cmds mcsqs_find_sqs_cmd tu instances =
     (if instances > 1
      then map (\<lambda>i. mcsqs_find_sqs_cmd @ add_ons tu @ [Fmt ''-ip'' (PyInt (int i + 1))])
             [0..<nat instances]
      else [mcsqs_find_sqs_cmd @ add_ons tu])"

text \<open>
  Lines 144 and 145: \<open>p.communicate(timeout=search_time * 60)\<close> on each process in
  turn, at time \<open>t\<close>. A call returns when the process has ended already or ends within
  \<open>timeout\<close> seconds of the call, and raises \<open>TimeoutExpired\<close> otherwise, which leaves
  the loop. The timeout is the same number in every call and is counted from the call.
\<close>

fun wait_all :: "(nat \<Rightarrow> real option) \<Rightarrow> real \<Rightarrow> real \<Rightarrow> nat list \<Rightarrow> wait_result" where
  "wait_all fin timeout t [] = Completed t"
| "wait_all fin timeout t (p # ps) =
     (case fin p of
        None \<Rightarrow> Expired (t + max 0 timeout) p
      | Some f \<Rightarrow>
          if f \<le> t + max 0 timeout then wait_all fin timeout (max t f) ps
          else Expired (t + max 0 timeout) p)"

text \<open>\<open>Popen(["mcsqs", "-best"]).communicate()\<close>\<close>

definition run_best :: "env \<Rightarrow> world \<Rightarrow> world" where
  "run_best env w =
     (let w1 = popen [Word ''mcsqs'', Word ''-best''] w
      in w1\<lparr>fs := (fs w1)(cwd w1 := select_best env (fs w1 (cwd w1)))\<rparr>)"

text \<open>\<open>p.kill()\<close> and \<open>p.communicate()\<close> for every search process (lines 160 to 162).\<close>

definition kill_all :: "nat \<Rightarrow> world \<Rightarrow> world" where
  "kill_all n w = w\<lparr>trace := trace w @ concat (map (\<lambda>i. [Kill i, Reap i]) [0..<n])\<rparr>"

text \<open>
  When the loop of waits is left, the run directory holds what the search processes
  have written until then.
\<close>

definition search_ended :: "env \<Rightarrow> arg list list \<Rightarrow> wait_result \<Rightarrow> world \<Rightarrow> world" where
  "search_ended env cmds r w =
     w\<lparr>fs := (fs w)(cwd w := search_output env cmds r (fs w (cwd w)))\<rparr>"

text \<open>\<open>if instances > 1: Popen(["mcsqs", "-best"])\<close> (lines 147 to 151 and 165 to 169).\<close>

definition reduce_best :: "env \<Rightarrow> int \<Rightarrow> world \<Rightarrow> world" where
  "reduce_best env instances w = (if instances > 1 then run_best env w else w)"

text \<open>
  The world in which \<open>os.path.exists\<close> is asked: after the reduction in the \<open>try\<close>
  (line 153), or after killing, reaping and the reduction in the handler (line 171).
\<close>

definition before_check :: "env \<Rightarrow> int \<Rightarrow> arg list list \<Rightarrow> wait_result \<Rightarrow> world \<Rightarrow> world" where
  "before_check env instances cmds r w =
     (case r of
        Completed t \<Rightarrow> reduce_best env instances (search_ended env cmds r w)
      | Expired t p \<Rightarrow>
          reduce_best env instances (kill_all (length cmds) (search_ended env cmds r w)))"

text \<open>Lines 147 to 177, after the loop of waits: the two branches of the \<open>try\<close>.\<close>

definition finish_search ::
  "env \<Rightarrow> int \<Rightarrow> string \<Rightarrow> arg list list \<Rightarrow> wait_result \<Rightarrow> world \<Rightarrow> (error + sqs) \<times> world" where
  "finish_search env instances original_directory cmds r w =
     (let w' = before_check env instances cmds r w
      in case r of
           Completed t \<Rightarrow>
             if path_exists w' ''bestsqs.out'' \<and> path_exists w' ''bestcorr.out''
             then parse_sqs_path env ''.'' w'
             else (Inl (Exception ''mcsqs exited before timeout reached''), w')
         | Expired t p \<Rightarrow>
             if path_exists w' ''bestsqs.out'' \<and> path_exists w' ''bestcorr.out''
             then parse_sqs_path env ''.'' w'
             else (Inl (TimeoutError ''Cluster expansion took too long.''),
                   w'\<lparr>cwd := original_directory\<rparr>))"

text \<open>
  The entry point, called with both binaries installed (the decorator \<open>@requires\<close>
  refuses the call otherwise). \<open>instances > 1\<close> raises \<open>TypeError\<close> when
  \<open>instances\<close> is still \<open>None\<close>, which is what \<open>os.cpu_count()\<close> returns on a host
  where it cannot tell.
\<close>

definition run_mcsqs ::
  "env \<Rightarrow> structure \<Rightarrow> (int \<times> pynum) list \<Rightarrow> scaling \<Rightarrow> real \<Rightarrow> string option \<Rightarrow> int option
     \<Rightarrow> tuning \<Rightarrow> world \<Rightarrow> (error + sqs) \<times> world" where
  "run_mcsqs env st clusters scaling search_time dir instances tu w =
     (if is_ordered st then (Inl (ValueError ''Pick a disordered structure''), w)
      else
        let instances' = (case instances of None \<Rightarrow> cpu_count env | Some n \<Rightarrow> Some n);
            original_directory = cwd w
        in case prepare_input env st scaling dir w of
             (Inl e, w1) \<Rightarrow> (Inl e, w1)
           | (Inr mcsqs_find_sqs_cmd, w1) \<Rightarrow>
               (let w2 = run_generate_clusters env clusters w1
                in case instances' of
                     None \<Rightarrow> (Inl TypeError, w2)
                   | Some n \<Rightarrow>
                       (let cmds = find_sqs_cmds mcsqs_find_sqs_cmd tu n;
                            w3 = foldl (\<lambda>v cmd. popen cmd v) w2 cmds;
                            r = wait_all (finish_time env) (search_time * 60) 0
                                  [0..<length cmds]
                        in finish_search env n original_directory cmds r w3)))"

text \<open>
  The world in which the search processes have been launched, for a run that got
  there (lines 109 to 141).
\<close>

definition launched :: "env \<Rightarrow> (int \<times> pynum) list \<Rightarrow> arg list list \<Rightarrow> world \<Rightarrow> world" where
  "launched env clusters cmds w =
     foldl (\<lambda>v cmd. popen cmd v) (run_generate_clusters env clusters w) cmds"

subsection \<open>The waiting as the specification words it\<close>

text \<open>
  "Wait on every instance with a single shared deadline expressed as an absolute
  wall-clock budget": every wait ends at the one deadline, whenever it started.
\<close>

fun wait_all_shared_deadline ::
  "(nat \<Rightarrow> real option) \<Rightarrow> real \<Rightarrow> real \<Rightarrow> nat list \<Rightarrow> wait_result" where
  "wait_all_shared_deadline fin deadline t [] = Completed t"
| "wait_all_shared_deadline fin deadline t (p # ps) =
     (case fin p of
        None \<Rightarrow> Expired (max t deadline) p
      | Some f \<Rightarrow>
          if f \<le> max t deadline then wait_all_shared_deadline fin deadline (max t f) ps
          else Expired (max t deadline) p)"

text \<open>A scalar scaling that is a whole number.\<close>

fun is_scalar :: "scaling \<Rightarrow> bool" where
  "is_scalar (VectorScaling a b c) = False"
| "is_scalar s = True"

fun integer_valued :: "scaling \<Rightarrow> bool" where
  "integer_valued (IntScaling n) = True"
| "integer_valued (FloatScaling (Finite q)) = (q \<in> \<int>)"
| "integer_valued s = False"




subsection \<open>Example runs\<close>

text \<open>
  An environment in which the binaries write nothing and no search process ever ends
  (a structure is written as one line of species names per site, and the float product
  is the exact one, as it is on small whole numbers), a disordered structure of two
  sites, and a world whose run directory \<open>/run\<close> holds the output of a parallel
  search with two instances.
\<close>

definition example_env :: env where
  "example_env =
     \<lparr>cpu_count = Some 4, mkdtemp = ''/tmp/sqs'',
      to_file = (\<lambda>st. concat (map (\<lambda>s. concat (map fst s) @ [LF]) (sites st))),
      from_file = (\<lambda>txt. Some (Structure [])),
      float_of = (\<lambda>s. if s = ''0.5'' then Some (Finite (1 / 2)) else None),
      str2cif = (\<lambda>txt. txt),
      generate_clusters = (\<lambda>cmd es. es),
      search_output = (\<lambda>cmds r es. es),
      select_best = (\<lambda>es. es),
      finish_time = (\<lambda>i. None),
      float_times = (\<lambda>x k. case x of Finite q \<Rightarrow> Finite (q * of_nat k) | _ \<Rightarrow> x)\<rparr>"

definition example_structure :: "structure" where
  "example_structure = Structure [[(''Cu'', 1 / 2), (''Au'', 1 / 2)], [(''Cu'', 1)]]"

definition example_tuning :: tuning where
  "example_tuning =
     \<lparr>temperature = PyInt 1, wr = PyInt 1, wn = PyInt 1,
      wd = PyFloat (Finite (1 / 2)), tol = PyFloat (Finite (1 / 1000))\<rparr>"

definition empty_world :: world where
  "empty_world = \<lparr>cwd = ''/home'', dirs = [''/home'', ''/run''], fs = (\<lambda>d. []), trace = []\<rparr>"

definition ordered_structure :: "structure" where
  "ordered_structure = Structure [[(''Cu'', 1)], [(''Au'', 1)]]"

definition report :: "string \<Rightarrow> string" where
  "report v = ''Objective_function= '' @ v @ [LF]"

definition parallel_entries :: entries where
  "parallel_entries =
     [(''bestsqs.out'', ''s''), (''bestcorr.out'', report ''0.5''),
      (''bestsqs1.out'', ''s1''), (''bestcorr1.out'', report ''Perfect_match''),
      (''bestsqs2.out'', ''s2''), (''bestcorr2.out'', report ''0.5'')]"

definition parallel_world :: world where
  "parallel_world =
     \<lparr>cwd = ''/run'', dirs = [''/home'', ''/run''],
      fs = (\<lambda>d. if d = ''/run'' then parallel_entries else []), trace = []\<rparr>"

definition parallel_result :: sqs where
  "parallel_result =
     \<lparr>bestsqs = Structure [], objective_function = Numeric (Finite (1 / 2)),
      allsqs = [(Structure [], Numeric (Finite (1 / 2))), (Structure [], Numeric (Finite (1 / 2)))],
      directory = ''/run''\<rparr>"

text \<open>
  Environments in which the search leaves the files of a parallel run behind, and in
  which the two search processes end after 5 and 9 seconds.
\<close>

definition recovering_env :: env where
  "recovering_env = example_env\<lparr>search_output := (\<lambda>cmds r es. parallel_entries)\<rparr>"

definition finishing_env :: env where
  "finishing_env = example_env\<lparr>finish_time := map_of [(0, 5), (1, 9)]\<rparr>"

text \<open>
  A run directory after a search with a single instance, whose report ends in the
  text \<open>Perfect_match\<close>, and a host with one core.
\<close>

definition single_entries :: entries where
  "single_entries = [(''bestsqs.out'', ''s''), (''bestcorr.out'', report ''Perfect_match'')]"

definition single_world :: world where
  "single_world =
     \<lparr>cwd = ''/run'', dirs = [''/home'', ''/run''],
      fs = (\<lambda>d. if d = ''/run'' then single_entries else []), trace = []\<rparr>"

definition single_result :: sqs where
  "single_result =
     \<lparr>bestsqs = Structure [], objective_function = Perfect_match, allsqs = [],
      directory = ''/run''\<rparr>"

definition single_core_env :: env where
  "single_core_env = example_env\<lparr>cpu_count := Some 1\<rparr>"





section \<open>Properties\<close>

subsection \<open>Lines, tokens and the glob pattern\<close>

text \<open>
  In a file without carriage returns whose last line is \<open>key=tok\<close>, with or without
  its newline, the token read is \<open>tok\<close> without the surrounding white space; and a
  name matches \<open>bestsqs*[0-9]*\<close> exactly when it is \<open>bestsqs\<close> followed by
  anything that contains a digit, so \<open>bestsqs1.cif\<close> matches as \<open>bestsqs1.out\<close> does.
\<close>

lemma universal_newlines_id: "CR \<notin> set s \<Longrightarrow> universal_newlines s = s"
  by (induction s rule: universal_newlines.induct) auto

lemma split_lines_Nil_iff [simp]: "split_lines s = [] \<longleftrightarrow> s = []"
  by (cases s) (auto split: list.splits)

lemma split_lines_single:
  "l \<noteq> [] \<Longrightarrow> LF \<notin> set (butlast l) \<Longrightarrow> split_lines l = [l]"
proof (induction l)
  case Nil
  then show ?case by simp
next
  case (Cons c cs)
  show ?case
  proof (cases "cs = []")
    case True
    then show ?thesis by simp
  next
    case False
    with Cons.prems have "c \<noteq> LF" "LF \<notin> set (butlast cs)" by auto
    with Cons.IH False show ?thesis by simp
  qed
qed

lemma split_lines_append:
  "split_lines (xs @ LF # ys) = split_lines (xs @ [LF]) @ split_lines ys"
  by (induction xs) (auto split: list.splits)

lemma split_on_not_Nil [simp]: "split_on c s \<noteq> []"
  by (cases s) (auto split: list.splits)

lemma split_on_single: "c \<notin> set s \<Longrightarrow> split_on c s = [s]"
  by (induction s) auto

lemma split_on_append:
  "split_on c (xs @ c # ys) = split_on c xs @ split_on c ys"
  by (induction xs) (auto split: list.splits)

lemma strip_line_end: "strip (s @ [LF]) = strip s"
proof -
  have sp: "is_space LF" by (simp add: is_space_def)
  show ?thesis
  proof (cases "\<forall>x\<in>set s. is_space x")
    case True
    then have "dropWhile is_space s = []" by simp
    moreover from True sp have "dropWhile is_space (s @ [LF]) = []"
      by (simp add: dropWhile_append)
    ultimately show ?thesis by (simp only: strip_def)
  next
    case False
    then have "dropWhile is_space (s @ [LF]) = dropWhile is_space s @ [LF]"
      by (auto simp: dropWhile_append)
    with sp show ?thesis by (simp add: strip_def)
  qed
qed

lemma last_split_lines:
  assumes "body = [] \<or> last body = LF" and "l \<noteq> []" and "LF \<notin> set (butlast l)"
  shows "split_lines (body @ l) \<noteq> [] \<and> last (split_lines (body @ l)) = l"
proof (cases "body = []")
  case True
  with assms show ?thesis by (simp add: split_lines_single)
next
  case False
  with assms(1) obtain xs where xs: "body = xs @ [LF]"
    by (metis append_butlast_last_id)
  have "split_lines (body @ l) = split_lines (xs @ [LF]) @ [l]"
    unfolding xs using split_lines_append [of xs l] split_lines_single [OF assms(2,3)] by simp
  then show ?thesis by simp
qed

lemma last_split_on:
  assumes "c \<notin> set t"
  shows "last (split_on c (key @ c # t)) = t"
  using assms by (simp add: split_on_append split_on_single)

lemma last_token_of_line:
  assumes "CR \<notin> set (body @ l)" and "body = [] \<or> last body = LF"
    and "l \<noteq> []" and "LF \<notin> set (butlast l)"
  shows "last_token (body @ l) = Inr (strip (last (split_on CHR ''='' l)))"
proof -
  have "readlines (body @ l) = split_lines (body @ l)"
    unfolding readlines_def using assms(1) by (simp add: universal_newlines_id)
  moreover note last_split_lines [OF assms(2-4)]
  ultimately show ?thesis
    by (cases "split_lines (body @ l)") (simp_all add: last_token_def)
qed

lemma last_token_final_line:
  assumes "CR \<notin> set (body @ key @ tok)" and "LF \<notin> set (key @ tok)"
    and "CHR ''='' \<notin> set tok" and "body = [] \<or> last body = LF"
  shows "last_token (body @ key @ ''='' @ tok @ [LF]) = Inr (strip tok)
       \<and> last_token (body @ key @ ''='' @ tok) = Inr (strip tok)"
proof -
  let ?l1 = "key @ CHR ''='' # (tok @ [LF])"
  let ?l2 = "key @ CHR ''='' # tok"
  have k: "LF \<notin> set key" and t: "LF \<notin> set tok" using assms(2) by simp_all
  have "butlast ?l1 = key @ CHR ''='' # tok"
    by (simp add: butlast_append)
  with k t have b1: "LF \<notin> set (butlast ?l1)" by simp
  have "LF \<notin> set ?l2" using k t by simp
  then have b2: "LF \<notin> set (butlast ?l2)"
    by (blast dest: in_set_butlastD)
  have c1: "CR \<notin> set (body @ ?l1)" using assms(1) by simp
  have c2: "CR \<notin> set (body @ ?l2)" using assms(1) by simp
  have n1: "?l1 \<noteq> []" and n2: "?l2 \<noteq> []" by simp_all
  have e: "CHR ''='' \<notin> set (tok @ [LF])" using assms(3) by simp
  have t1: "last (split_on CHR ''='' ?l1) = tok @ [LF]"
    by (rule last_split_on [OF e])
  have t2: "last (split_on CHR ''='' ?l2) = tok"
    by (rule last_split_on [OF assms(3)])
  have "last_token (body @ ?l1) = Inr (strip (tok @ [LF]))"
    unfolding last_token_of_line [OF c1 assms(4) n1 b1] t1 ..
  then have r1: "last_token (body @ ?l1) = Inr (strip tok)"
    by (simp only: strip_line_end)
  have r2: "last_token (body @ ?l2) = Inr (strip tok)"
    unfolding last_token_of_line [OF c2 assms(4) n2 b2] t2 ..
  have f1: "body @ key @ ''='' @ tok @ [LF] = body @ ?l1" by simp
  have f2: "body @ key @ ''='' @ tok = body @ ?l2" by simp
  show ?thesis unfolding f1 f2 using r1 r2 by (rule conjI)
qed

lemma glob_star:
  "glob_match (Star # ps) s \<longleftrightarrow> (\<exists>a b. s = a @ b \<and> glob_match ps b)"
proof (induction s)
  case Nil
  then show ?case by simp
next
  case (Cons c cs)
  show ?case
  proof
    assume "glob_match (Star # ps) (c # cs)"
    then have "glob_match ps (c # cs) \<or> glob_match (Star # ps) cs" by simp
    then show "\<exists>a b. c # cs = a @ b \<and> glob_match ps b"
    proof
      assume "glob_match ps (c # cs)"
      then have "c # cs = [] @ (c # cs) \<and> glob_match ps (c # cs)" by simp
      then show ?thesis by blast
    next
      assume "glob_match (Star # ps) cs"
      with Cons.IH obtain a b where "cs = a @ b" "glob_match ps b" by blast
      then have "c # cs = (c # a) @ b \<and> glob_match ps b" by simp
      then show ?thesis by blast
    qed
  next
    assume "\<exists>a b. c # cs = a @ b \<and> glob_match ps b"
    then obtain a b where ab: "c # cs = a @ b" "glob_match ps b" by blast
    show "glob_match (Star # ps) (c # cs)"
    proof (cases a)
      case Nil
      with ab(1) have "b = c # cs" by simp
      with ab(2) have "glob_match ps (c # cs)" by simp
      then show ?thesis by simp
    next
      case (Cons x a')
      with ab have "cs = a' @ b" by simp
      with ab(2) Cons.IH show ?thesis by auto
    qed
  qed
qed

lemma glob_lits:
  "glob_match (map Lit pre @ ps) s \<longleftrightarrow> (\<exists>r. s = pre @ r \<and> glob_match ps r)"
proof (induction pre arbitrary: s)
  case Nil
  then show ?case by simp
next
  case (Cons a pre)
  show ?case
  proof (cases s)
    case Nil
    then show ?thesis by simp
  next
    case (Cons c cs)
    have "glob_match (map Lit (a # pre) @ ps) (c # cs)
            \<longleftrightarrow> a = c \<and> glob_match (map Lit pre @ ps) cs"
      by simp
    also have "\<dots> \<longleftrightarrow> a = c \<and> (\<exists>r. cs = pre @ r \<and> glob_match ps r)"
      by (simp only: Cons.IH)
    also have "\<dots> \<longleftrightarrow> (\<exists>r. c # cs = (a # pre) @ r \<and> glob_match ps r)"
      by auto
    finally show ?thesis unfolding Cons .
  qed
qed

lemma glob_star_end [simp]: "glob_match [Star] s"
  by (induction s) auto

lemma bestsqs_pattern_iff:
  "glob_match bestsqs_pattern name \<longleftrightarrow>
     (\<exists>a d b. name = ''bestsqs'' @ a @ d # b
        \<and> (of_char CHR ''0'' :: nat) \<le> of_char d \<and> (of_char d :: nat) \<le> of_char CHR ''9'')"
proof -
  let ?digit = "\<lambda>d. (of_char CHR ''0'' :: nat) \<le> of_char d \<and> (of_char d :: nat) \<le> of_char CHR ''9''"
  have digit: "glob_match [Range CHR ''0'' CHR ''9'', Star] b \<longleftrightarrow>
      (\<exists>d b'. b = d # b' \<and> ?digit d)" for b
    by (cases b) simp_all
  have rest: "glob_match [Star, Range CHR ''0'' CHR ''9'', Star] r \<longleftrightarrow>
     (\<exists>a d b. r = a @ d # b \<and> ?digit d)" for r
  proof -
    have "glob_match [Star, Range CHR ''0'' CHR ''9'', Star] r \<longleftrightarrow>
       (\<exists>a b. r = a @ b \<and> glob_match [Range CHR ''0'' CHR ''9'', Star] b)"
      by (rule glob_star)
    also have "\<dots> \<longleftrightarrow> (\<exists>a b. r = a @ b \<and> (\<exists>d b'. b = d # b' \<and> ?digit d))"
      by (simp only: digit)
    also have "\<dots> \<longleftrightarrow> (\<exists>a d b. r = a @ d # b \<and> ?digit d)"
      by blast
    finally show ?thesis .
  qed
  have "glob_match bestsqs_pattern name \<longleftrightarrow>
      (\<exists>r. name = ''bestsqs'' @ r \<and> glob_match [Star, Range CHR ''0'' CHR ''9'', Star] r)"
    unfolding bestsqs_pattern_def by (rule glob_lits)
  also have "\<dots> \<longleftrightarrow> (\<exists>r. name = ''bestsqs'' @ r \<and> (\<exists>a d b. r = a @ d # b \<and> ?digit d))"
    by (simp only: rest)
  also have "\<dots> \<longleftrightarrow> (\<exists>a d b. name = ''bestsqs'' @ a @ d # b \<and> ?digit d)"
    by blast
  finally show ?thesis .
qed

lemma matching_names_iff:
  assumes "d \<in> set (dirs w)"
  shows "name \<in> set (matching_names w d) \<longleftrightarrow>
     name \<in> fst ` set (fs w d)
     \<and> (\<exists>a dg b. name = ''bestsqs'' @ a @ dg # b
          \<and> (of_char CHR ''0'' :: nat) \<le> of_char dg \<and> (of_char dg :: nat) \<le> of_char CHR ''9'')"
  using assms by (simp add: matching_names_def bestsqs_pattern_iff)





subsection \<open>What \<open>_parse_sqs_path\<close> leaves unchanged\<close>

lemma shell_str2cif_fields [simp]:
  "cwd (shell_str2cif env d i out w) = cwd w"
  "dirs (shell_str2cif env d i out w) = dirs w"
  "trace (shell_str2cif env d i out w) = trace w @ [Shell_str2cif d i out]"
  by (simp_all add: shell_str2cif_def write_file_def Let_def split: option.splits)

lemma parse_instance_world:
  "parse_instance env d best i w = (r, w') \<Longrightarrow>
     cwd w' = cwd w \<and> dirs w' = dirs w \<and> (\<exists>evs. trace w' = trace w @ evs)"
  by (auto simp: parse_instance_def Let_def split: if_splits sum.splits)

lemma parse_instances_world:
  "parse_instances env d best is acc w = (r, w') \<Longrightarrow>
     cwd w' = cwd w \<and> dirs w' = dirs w \<and> (\<exists>evs. trace w' = trace w @ evs)"
proof (induction "is" arbitrary: acc w)
  case Nil
  then show ?case by simp
next
  case (Cons i "is")
  obtain r1 w1 where p: "parse_instance env d best i w = (r1, w1)"
    by (cases "parse_instance env d best i w")
  from parse_instance_world [OF p] obtain evs where
    w1: "cwd w1 = cwd w" "dirs w1 = dirs w" "trace w1 = trace w @ evs" by blast
  show ?case
  proof (cases r1)
    case (Inl e)
    with Cons.prems p w1 show ?thesis by auto
  next
    case (Inr x)
    with Cons.prems p have "parse_instances env d best is (acc @ [x]) w1 = (r, w')" by simp
    from Cons.IH [OF this] w1 show ?thesis by auto
  qed
qed

lemma parse_sqs_path_world:
  "parse_sqs_path env path w = (r, w') \<Longrightarrow>
     cwd w' = cwd w \<and> dirs w' = dirs w \<and> (\<exists>evs. trace w' = trace w @ evs)"
  unfolding parse_sqs_path_def Let_def
  by (auto split: if_splits sum.splits prod.splits dest!: parse_instances_world)

lemma read_file_shell_str2cif:
  "name \<noteq> out \<Longrightarrow> read_file (shell_str2cif env d i out w) d' name = read_file w d' name"
  by (simp add: shell_str2cif_def write_file_def read_file_def Let_def update_conv'
      split: option.splits)

lemma load_token_shell_str2cif:
  "name \<noteq> out \<Longrightarrow> load_token (shell_str2cif env d i out w) d' name = load_token w d' name"
  by (simp add: load_token_def read_file_shell_str2cif)

subsection \<open>The results of the loop over the instances\<close>

lemma parse_instance_Inr:
  assumes "parse_instance env d best i w = (Inr x, w')"
  shows "d \<in> set (dirs w)"
    and "w' = shell_str2cif env d (''bestsqs'' @ string_of_nat (i + 1) @ ''.out'')
                (''bestsqs'' @ string_of_nat (i + 1) @ ''.cif'') w"
    and "\<exists>tok. load_token w' d (''bestcorr'' @ string_of_nat (i + 1) @ ''.out'') = Inr tok
           \<and> instance_objective env best tok = Inr (snd x)"
  using assms unfolding parse_instance_def Let_def
  by (auto split: if_splits sum.splits)

lemma parse_instance_keeps:
  assumes "parse_instance env d best i w = (r, w')" and "take 7 name \<noteq> ''bestsqs''"
  shows "load_token w' d' name = load_token w d' name"
proof -
  have ne: "name \<noteq> ''bestsqs'' @ string_of_nat (i + 1) @ ''.cif''"
    using assms(2) by auto
  have "w' = w \<or> w' = shell_str2cif env d (''bestsqs'' @ string_of_nat (i + 1) @ ''.out'')
                (''bestsqs'' @ string_of_nat (i + 1) @ ''.cif'') w"
    using assms(1) unfolding parse_instance_def Let_def
    by (auto split: if_splits sum.splits)
  then show ?thesis
    using load_token_shell_str2cif [OF ne] by auto
qed

lemma parse_instance_objective:
  assumes "parse_instance env d best i w = (Inr x, w')"
  shows "\<exists>tok. load_token w d (''bestcorr'' @ string_of_nat (i + 1) @ ''.out'') = Inr tok
           \<and> instance_objective env best tok = Inr (snd x)"
proof -
  have "take 7 (''bestcorr'' @ string_of_nat (i + 1) @ ''.out'') \<noteq> ''bestsqs''"
    by simp
  from parse_instance_keeps [OF assms this] parse_instance_Inr(3) [OF assms]
  show ?thesis by simp
qed

lemma parse_instances_result:
  assumes "parse_instances env d best is acc w = (Inr every, w')"
  shows "length every = length acc + length is \<and> take (length acc) every = acc
     \<and> (\<forall>k<length is. \<exists>tok.
          load_token w d (''bestcorr'' @ string_of_nat (is ! k + 1) @ ''.out'') = Inr tok
          \<and> instance_objective env best tok = Inr (snd (every ! (length acc + k))))"
  using assms
proof (induction "is" arbitrary: acc w)
  case Nil
  then show ?case by simp
next
  case (Cons i "is")
  obtain r1 w1 where p: "parse_instance env d best i w = (r1, w1)"
    by (cases "parse_instance env d best i w")
  with Cons.prems obtain x where r1: "r1 = Inr x"
    by (cases r1) auto
  with Cons.prems p have rest: "parse_instances env d best is (acc @ [x]) w1 = (Inr every, w')"
    by simp
  note ih = Cons.IH [OF rest]
  have len: "length every = length acc + length (i # is)" using ih by simp
  have tk: "take (Suc (length acc)) every = acc @ [x]" using ih by simp
  have pre: "take (length acc) every = acc"
  proof -
    have "take (length acc) (take (Suc (length acc)) every) = take (length acc) (acc @ [x])"
      by (simp only: tk)
    then show ?thesis by simp
  qed
  have x: "every ! length acc = x"
  proof -
    have "take (Suc (length acc)) every ! length acc = (acc @ [x]) ! length acc"
      by (simp only: tk)
    then show ?thesis by simp
  qed
  have "\<exists>tok. load_token w d (''bestcorr'' @ string_of_nat ((i # is) ! k + 1) @ ''.out'') = Inr tok
          \<and> instance_objective env best tok = Inr (snd (every ! (length acc + k)))"
    if k: "k < length (i # is)" for k
  proof (cases k)
    case 0
    with parse_instance_objective [OF p [unfolded r1]] x show ?thesis by simp
  next
    case (Suc j)
    with k have j: "j < length is" by simp
    have keep: "load_token w1 d (''bestcorr'' @ string_of_nat (is ! j + 1) @ ''.out'')
                  = load_token w d (''bestcorr'' @ string_of_nat (is ! j + 1) @ ''.out'')"
      by (rule parse_instance_keeps [OF p]) simp
    from ih j have "\<exists>tok.
          load_token w1 d (''bestcorr'' @ string_of_nat (is ! j + 1) @ ''.out'') = Inr tok
          \<and> instance_objective env best tok = Inr (snd (every ! (length (acc @ [x]) + j)))"
      by blast
    with keep Suc show ?thesis by simp
  qed
  with len pre show ?case by blast
qed

lemma parse_sqs_path_Inr:
  assumes "parse_sqs_path env path w = (Inr r, w')"
  shows "\<exists>tok.
     load_token (shell_str2cif env (resolve (cwd w) path) ''bestsqs.out'' ''bestsqs.cif'' w)
         (resolve (cwd w) path) ''bestcorr.out'' = Inr tok
     \<and> best_objective env tok = Inr (objective_function r)
     \<and> parse_instances env (resolve (cwd w) path) (objective_function r)
           [0..<length (matching_names w (resolve (cwd w) path))] []
           (shell_str2cif env (resolve (cwd w) path) ''bestsqs.out'' ''bestsqs.cif'' w)
         = (Inr (allsqs r), w')
     \<and> directory r = resolve (cwd w) path"
  using assms unfolding parse_sqs_path_def Let_def
  by (auto split: if_splits sum.splits prod.splits)


lemma best_objective_Inr:
  "best_objective env tok = Inr obj \<longleftrightarrow>
     (if tok = ''Perfect_match'' then obj = Perfect_match
      else \<exists>v. float_of env tok = Some v \<and> obj = Numeric v)"
  by (auto simp: best_objective_def to_float_def split: option.splits)

lemma instance_objective_Inr:
  "instance_objective env best tok = Inr obj \<longleftrightarrow>
     (if tok = ''Perfect_match'' then obj = best
      else \<exists>v. float_of env tok = Some v \<and> obj = Numeric v)"
  by (auto simp: instance_objective_def to_float_def split: option.splits)

lemma load_token_Inr:
  "load_token w d name = Inr tok \<longleftrightarrow>
     (\<exists>txt. read_file w d name = Some txt \<and> last_token txt = Inr tok)"
  by (auto simp: load_token_def split: option.splits)

subsection \<open>The exceptions of \<open>_parse_sqs_path\<close>\<close>

lemma parse_instance_error:
  "parse_instance env d best i w = (Inl e, w') \<Longrightarrow> e \<noteq> TimeoutError m"
  by (auto simp: parse_instance_def Let_def load_structure_def load_token_def last_token_def
      instance_objective_def to_float_def
      split: if_splits sum.splits option.splits list.splits)

lemma parse_instances_error:
  "parse_instances env d best is acc w = (Inl e, w') \<Longrightarrow> e \<noteq> TimeoutError m"
proof (induction "is" arbitrary: acc w)
  case Nil
  then show ?case by simp
next
  case (Cons i "is")
  obtain r1 w1 where p: "parse_instance env d best i w = (r1, w1)"
    by (cases "parse_instance env d best i w")
  show ?case
  proof (cases r1)
    case (Inl e1)
    with Cons.prems p parse_instance_error [of env d best i w e1 w1 m] show ?thesis by auto
  next
    case (Inr x)
    with Cons.prems p have "parse_instances env d best is (acc @ [x]) w1 = (Inl e, w')" by simp
    from Cons.IH [OF this] show ?thesis .
  qed
qed

lemma parse_sqs_path_error:
  "parse_sqs_path env path w = (Inl e, w') \<Longrightarrow> e \<noteq> TimeoutError m"
  unfolding parse_sqs_path_def Let_def
  by (auto simp: load_structure_def load_token_def last_token_def best_objective_def to_float_def
      split: if_splits sum.splits option.splits list.splits prod.splits
      dest: parse_instances_error)

subsection \<open>Working directory and trace along a run\<close>

lemma write_file_fields [simp]:
  "cwd (write_file d n txt w) = cwd w" "dirs (write_file d n txt w) = dirs w"
  "trace (write_file d n txt w) = trace w"
  by (simp_all add: write_file_def)

lemma make_run_directory_trace [simp]:
  "trace (make_run_directory env dir w) = trace w"
  by (simp add: make_run_directory_def)

lemma prepare_input_trace:
  "prepare_input env st scaling dir w = (r, w1) \<Longrightarrow> trace w1 = trace w"
  unfolding prepare_input_def Let_def make_run_directory_def
  by (auto split: if_splits scaling.splits sum.splits)

lemma popen_fields [simp]:
  "cwd (popen cmd w) = cwd w" "dirs (popen cmd w) = dirs w" "fs (popen cmd w) = fs w"
  "trace (popen cmd w) = trace w @ [Popen cmd]"
  by (simp_all add: popen_def)

lemma foldl_popen_fields:
  "cwd (foldl (\<lambda>v cmd. popen cmd v) w cmds) = cwd w"
  "dirs (foldl (\<lambda>v cmd. popen cmd v) w cmds) = dirs w"
  "fs (foldl (\<lambda>v cmd. popen cmd v) w cmds) = fs w"
  "trace (foldl (\<lambda>v cmd. popen cmd v) w cmds) = trace w @ map Popen cmds"
  by (induction cmds arbitrary: w) simp_all

lemma run_generate_clusters_fields [simp]:
  "cwd (run_generate_clusters env clusters w) = cwd w"
  "dirs (run_generate_clusters env clusters w) = dirs w"
  "trace (run_generate_clusters env clusters w) = trace w @ [Popen (generate_clusters_cmd clusters)]"
  by (simp_all add: run_generate_clusters_def Let_def)

lemma launched_fields:
  "cwd (launched env clusters cmds w) = cwd w"
  "dirs (launched env clusters cmds w) = dirs w"
  "trace (launched env clusters cmds w)
     = trace w @ Popen (generate_clusters_cmd clusters) # map Popen cmds"
  by (simp_all add: launched_def foldl_popen_fields)

lemma run_best_fields [simp]:
  "cwd (run_best env w) = cwd w" "dirs (run_best env w) = dirs w"
  "trace (run_best env w) = trace w @ [Popen [Word ''mcsqs'', Word ''-best'']]"
  by (simp_all add: run_best_def Let_def)

lemma before_check_fields:
  "cwd (before_check env n cmds r w) = cwd w"
  "dirs (before_check env n cmds r w) = dirs w"
  by (simp_all add: before_check_def reduce_best_def kill_all_def search_ended_def
      split: wait_result.splits)

lemma before_check_trace:
  "trace (before_check env n cmds r w) =
     trace w
     @ (case r of Completed t \<Rightarrow> [] | Expired t p \<Rightarrow> concat (map (\<lambda>i. [Kill i, Reap i]) [0..<length cmds]))
     @ (if n > 1 then [Popen [Word ''mcsqs'', Word ''-best'']] else [])"
  by (simp add: before_check_def reduce_best_def kill_all_def search_ended_def
      split: wait_result.splits)

lemma finish_search_trace:
  "\<exists>rest. trace (snd (finish_search env n orig cmds r w)) = trace w @ rest"
proof -
  let ?w = "before_check env n cmds r w"
  obtain evs where evs: "trace ?w = trace w @ evs"
    using before_check_trace [of env n cmds r w] by simp
  obtain res w' where p: "parse_sqs_path env ''.'' ?w = (res, w')"
    by (cases "parse_sqs_path env ''.'' ?w")
  from parse_sqs_path_world [OF p] obtain evs' where "trace w' = trace ?w @ evs'" by blast
  with evs p show ?thesis
    unfolding finish_search_def Let_def
    by (auto split: wait_result.splits)
qed

lemma run_mcsqs_search:
  assumes "\<not> is_ordered st"
    and "prepare_input env st scaling dir w = (Inr cmd, w1)"
    and "(case instances of None \<Rightarrow> cpu_count env | Some k \<Rightarrow> Some k) = Some n"
  shows "run_mcsqs env st clusters scaling search_time dir instances tu w =
     finish_search env n (cwd w) (find_sqs_cmds cmd tu n)
       (wait_all (finish_time env) (search_time * 60) 0 [0..<length (find_sqs_cmds cmd tu n)])
       (launched env clusters (find_sqs_cmds cmd tu n) w1)"
  using assms by (simp add: run_mcsqs_def Let_def launched_def)

lemma run_mcsqs_trace:
  assumes "\<not> is_ordered st" and "prepare_input env st scaling dir w = (Inr cmd, w1)"
  shows "\<exists>rest. trace (snd (run_mcsqs env st clusters scaling search_time dir instances tu w))
           = trace w @ Popen (generate_clusters_cmd clusters) # rest"
proof (cases "case instances of None \<Rightarrow> cpu_count env | Some k \<Rightarrow> Some k")
  case None
  with assms show ?thesis
    by (simp add: run_mcsqs_def Let_def prepare_input_trace [OF assms(2)])
next
  case (Some n)
  let ?cmds = "find_sqs_cmds cmd tu n"
  let ?r = "wait_all (finish_time env) (search_time * 60) 0 [0..<length ?cmds]"
  from finish_search_trace obtain rest where
    "trace (snd (finish_search env n (cwd w) ?cmds ?r (launched env clusters ?cmds w1)))
       = trace (launched env clusters ?cmds w1) @ rest"
    by blast
  then show ?thesis
    unfolding run_mcsqs_search [OF assms Some]
    by (simp add: launched_fields prepare_input_trace [OF assms(2)])
qed

subsection \<open>Input preparation\<close>

lemma mod_1_is_true_iff:
  "is_scalar scaling \<Longrightarrow> mod_1_is_true scaling \<longleftrightarrow> \<not> integer_valued scaling"
proof (induction scaling rule: integer_valued.induct)
  case (2 q)
  have "q \<in> \<int> \<longleftrightarrow> of_int \<lfloor>q\<rfloor> = q"
    by (auto simp: Ints_def)
  then show ?case by auto
qed simp_all

lemma chdir_succeeds:
  assumes "dir = None \<or> dir = Some [] \<or> run_directory env dir w \<in> set (dirs w)"
  shows "run_directory env dir w \<in> set (dirs (make_run_directory env dir w))"
  using assms by (auto simp: make_run_directory_def)

lemma prepare_input_scalar:
  assumes "is_scalar scaling"
    and "run_directory env dir w \<in> set (dirs (make_run_directory env dir w))"
  shows "prepare_input env st scaling dir w =
     (if mod_1_is_true scaling
      then (Inl (ValueError ''Scaling should be an integer, not {}''),
            (make_run_directory env dir w)\<lparr>cwd := run_directory env dir w\<rparr>)
      else (Inr [Word ''mcsqs'', Fmt ''-n'' (times_atoms env scaling (num_sites st))],
            write_file (run_directory env dir w) ''rndstr.in'' (to_file env st)
              ((make_run_directory env dir w)\<lparr>cwd := run_directory env dir w\<rparr>)))"
  using assms by (cases scaling) (simp_all add: prepare_input_def Let_def)


subsection \<open>The claims\<close>

text \<open>
  C1, as the code has it. The claim of one deadline shared by all waits fails (see
  the next theorem); what holds is that the instances are waited for one after the
  other and every wait has the whole timeout of \<open>search_time * 60\<close> seconds for itself,
  counted from the moment that wait starts: after the waits on \<open>qs\<close> have returned at
  time \<open>ts\<close>, the wait on the next instance \<open>p\<close> returns if \<open>p\<close> ends by
  \<open>ts + search_time * 60\<close> and the waiting goes on with the rest, and otherwise it
  raises at \<open>ts + search_time * 60\<close>, which ends the waiting, so that no later instance
  is waited for.
\<close>

theorem each_wait_has_its_own_timeout:
  "wait_all fin (search_time * 60) t (qs @ p # rest) =
     (case wait_all fin (search_time * 60) t qs of
        Expired te q \<Rightarrow> Expired te q
      | Completed ts \<Rightarrow>
          (case fin p of
             None \<Rightarrow> Expired (ts + max 0 (search_time * 60)) p
           | Some f \<Rightarrow>
               if f \<le> ts + max 0 (search_time * 60)
               then wait_all fin (search_time * 60) (max ts f) rest
               else Expired (ts + max 0 (search_time * 60)) p))"
  by (induction qs arbitrary: t) (auto split: option.splits)

theorem each_wait_has_its_own_timeout_witness:
  "wait_all (finish_time finishing_env) ((1 / 10) * 60) 0 ([0] @ 1 # []) = Completed 9"
  using each_wait_has_its_own_timeout [of "finish_time finishing_env" "1 / 10" 0 "[0]" 1 "[]"]
  by (simp add: finishing_env_def example_env_def)

text \<open>
  C1 as stated does not hold: with a search time of a tenth of a minute (6 seconds) and
  two instances that end after 5 and after 9 seconds, the waits of the code all return
  (the second wait starts at 5 and may last until 11), where waits under one shared
  deadline of 6 seconds expire on the second instance; the run takes the path of normal
  completion.
\<close>

theorem waits_share_no_deadline:
  "wait_all (finish_time finishing_env) ((1 / 10) * 60) 0 [0, 1] = Completed 9
   \<and> wait_all_shared_deadline (finish_time finishing_env) (0 + (1 / 10) * 60) 0 [0, 1]
       = Expired 6 1
   \<and> fst (run_mcsqs finishing_env example_structure [] (IntScaling 1) (1 / 10) (Some ''/run'')
            (Some 2) example_tuning empty_world)
       = Inl (Exception ''mcsqs exited before timeout reached'')"
  by code_simp

text \<open>
  C2, evaluated on the directory of a parallel run with two instances: the first call
  of the aggregator returns a result and writes \<open>bestsqs1.cif\<close> and \<open>bestsqs2.cif\<close>,
  which match \<open>bestsqs*[0-9]*\<close> themselves; the second call therefore counts four
  instances and raises \<open>FileNotFoundError\<close> on the third, so the two calls do not give
  the same result.
\<close>

theorem second_aggregation_fails:
  "fst (parse_sqs_path example_env ''.'' parallel_world) = Inr parallel_result
   \<and> matching_names parallel_world ''/run'' = [''bestsqs1.out'', ''bestsqs2.out'']
   \<and> matching_names (snd (parse_sqs_path example_env ''.'' parallel_world)) ''/run''
       = [''bestsqs1.out'', ''bestsqs2.out'', ''bestsqs1.cif'', ''bestsqs2.cif'']
   \<and> fst (parse_sqs_path example_env ''.'' (snd (parse_sqs_path example_env ''.'' parallel_world)))
       = Inl FileNotFoundError"
  by code_simp

text \<open>
  C3: when a wait expires, every search process is killed and reaped, in launch order,
  then \<open>mcsqs -best\<close> is run if there is more than one instance; and if \<open>bestsqs.out\<close>
  and \<open>bestcorr.out\<close> exist then, the run returns what \<open>_parse_sqs_path\<close> returns on
  that directory, which is never a \<open>TimeoutError\<close>.
\<close>

theorem timeout_with_best_files_succeeds:
  assumes "\<not> is_ordered st"
    and "prepare_input env st scaling dir w = (Inr cmd, w1)"
    and "(case instances of None \<Rightarrow> cpu_count env | Some k \<Rightarrow> Some k) = Some n"
    and "cmds = find_sqs_cmds cmd tu n"
    and "wait_all (finish_time env) (search_time * 60) 0 [0..<length cmds] = Expired t p"
    and "w3 = before_check env n cmds (Expired t p) (launched env clusters cmds w1)"
    and "path_exists w3 ''bestsqs.out''" and "path_exists w3 ''bestcorr.out''"
  shows "trace w3 = trace w @ Popen (generate_clusters_cmd clusters) # map Popen cmds
                      @ concat (map (\<lambda>i. [Kill i, Reap i]) [0..<length cmds])
                      @ (if n > 1 then [Popen [Word ''mcsqs'', Word ''-best'']] else [])
       \<and> run_mcsqs env st clusters scaling search_time dir instances tu w
           = parse_sqs_path env ''.'' w3
       \<and> (\<forall>m. fst (run_mcsqs env st clusters scaling search_time dir instances tu w)
                 \<noteq> Inl (TimeoutError m))"
proof -
  have run: "run_mcsqs env st clusters scaling search_time dir instances tu w =
     finish_search env n (cwd w) cmds (Expired t p) (launched env clusters cmds w1)"
    using run_mcsqs_search [OF assms(1-3), of clusters search_time tu] assms(4,5) by simp
  have tr: "trace w3 = trace w @ Popen (generate_clusters_cmd clusters) # map Popen cmds
                      @ concat (map (\<lambda>i. [Kill i, Reap i]) [0..<length cmds])
                      @ (if n > 1 then [Popen [Word ''mcsqs'', Word ''-best'']] else [])"
    unfolding assms(6)
    by (simp add: before_check_trace launched_fields prepare_input_trace [OF assms(2)])
  have eq: "run_mcsqs env st clusters scaling search_time dir instances tu w
           = parse_sqs_path env ''.'' w3"
    unfolding run using assms(6-8) by (simp add: finish_search_def Let_def)
  have "fst (parse_sqs_path env ''.'' w3) \<noteq> Inl (TimeoutError m)" for m
    using parse_sqs_path_error [of env "''.''" w3 "TimeoutError m" _ m]
    by (cases "parse_sqs_path env ''.'' w3") auto
  with tr eq show ?thesis by simp
qed

theorem timeout_with_best_files_succeeds_witness:
  "\<not> is_ordered example_structure
   \<and> wait_all (finish_time recovering_env) (1 * 60) 0 [0..<2] = Expired 60 0
   \<and> fst (run_mcsqs recovering_env example_structure [] (IntScaling 1) 1 (Some ''/run'')
            (Some 2) example_tuning empty_world) = Inr parallel_result
   \<and> (\<forall>m. fst (run_mcsqs recovering_env example_structure [] (IntScaling 1) 1 (Some ''/run'')
                 (Some 2) example_tuning empty_world) \<noteq> Inl (TimeoutError m))"
proof -
  let ?cmd = "[Word ''mcsqs'', Fmt ''-n'' (PyInt 2)]"
  let ?cmds = "find_sqs_cmds ?cmd example_tuning 2"
  let ?w1 = "snd (prepare_input recovering_env example_structure (IntScaling 1) (Some ''/run'')
                    empty_world)"
  let ?w3 = "before_check recovering_env 2 ?cmds (Expired 60 0)
               (launched recovering_env [] ?cmds ?w1)"
  have h1: "\<not> is_ordered example_structure" by code_simp
  have "fst (prepare_input recovering_env example_structure (IntScaling 1) (Some ''/run'')
               empty_world) = Inr ?cmd"
    by code_simp
  then have h2: "prepare_input recovering_env example_structure (IntScaling 1) (Some ''/run'')
                   empty_world = (Inr ?cmd, ?w1)"
    by (metis prod.collapse)
  have h3: "(case Some 2 of None \<Rightarrow> cpu_count recovering_env | Some k \<Rightarrow> Some k) = Some 2"
    by simp
  have h5: "wait_all (finish_time recovering_env) (1 * 60) 0 [0..<length ?cmds] = Expired 60 0"
    by code_simp
  have h5': "wait_all (finish_time recovering_env) (1 * 60) 0 [0..<2] = Expired 60 0"
    by code_simp
  have h7: "path_exists ?w3 ''bestsqs.out''" by code_simp
  have h8: "path_exists ?w3 ''bestcorr.out''" by code_simp
  have res: "fst (parse_sqs_path recovering_env ''.'' ?w3) = Inr parallel_result"
    by code_simp
  note main = timeout_with_best_files_succeeds [where clusters = "[]", OF h1 h2 h3 refl h5 refl h7 h8]
  from main res h1 h5' show ?thesis by simp
qed

text \<open>
  C4: when one of \<open>bestsqs.out\<close> and \<open>bestcorr.out\<close> is missing at the check, the run
  raises \<open>TimeoutError\<close> on the timeout path, with the working directory set back to
  the caller's, and raises the generic \<open>Exception\<close> on the path of normal completion,
  with the working directory still the run directory.
\<close>

theorem missing_best_files_raise:
  assumes "\<not> is_ordered st"
    and "prepare_input env st scaling dir w = (Inr cmd, w1)"
    and "(case instances of None \<Rightarrow> cpu_count env | Some k \<Rightarrow> Some k) = Some n"
    and "cmds = find_sqs_cmds cmd tu n"
    and "r = wait_all (finish_time env) (search_time * 60) 0 [0..<length cmds]"
    and "w3 = before_check env n cmds r (launched env clusters cmds w1)"
    and "\<not> (path_exists w3 ''bestsqs.out'' \<and> path_exists w3 ''bestcorr.out'')"
  shows "cwd w3 = cwd w1
       \<and> run_mcsqs env st clusters scaling search_time dir instances tu w
           = (case r of
                Completed t \<Rightarrow> (Inl (Exception ''mcsqs exited before timeout reached''), w3)
              | Expired t p \<Rightarrow>
                  (Inl (TimeoutError ''Cluster expansion took too long.''), w3\<lparr>cwd := cwd w\<rparr>))"
proof -
  have run: "run_mcsqs env st clusters scaling search_time dir instances tu w =
     finish_search env n (cwd w) cmds r (launched env clusters cmds w1)"
    using run_mcsqs_search [OF assms(1-3), of clusters search_time tu] assms(4,5) by simp
  have "cwd w3 = cwd w1"
    unfolding assms(6) by (simp add: before_check_fields launched_fields)
  moreover have "finish_search env n (cwd w) cmds r (launched env clusters cmds w1)
           = (case r of
                Completed t \<Rightarrow> (Inl (Exception ''mcsqs exited before timeout reached''), w3)
              | Expired t p \<Rightarrow>
                  (Inl (TimeoutError ''Cluster expansion took too long.''), w3\<lparr>cwd := cwd w\<rparr>))"
    using assms(6,7) by (auto simp: finish_search_def Let_def split: wait_result.splits)
  ultimately show ?thesis using run by simp
qed

theorem missing_best_files_raise_witness:
  "wait_all (finish_time example_env) (1 * 60) 0 [0..<1] = Expired 60 0
   \<and> fst (run_mcsqs example_env example_structure [] (IntScaling 1) 1 (Some ''/run'')
            (Some 1) example_tuning empty_world)
       = Inl (TimeoutError ''Cluster expansion took too long.'')
   \<and> cwd (snd (run_mcsqs example_env example_structure [] (IntScaling 1) 1 (Some ''/run'')
                 (Some 1) example_tuning empty_world)) = ''/home''
   \<and> wait_all (finish_time finishing_env) (1 * 60) 0 [0..<2] = Completed 9
   \<and> fst (run_mcsqs finishing_env example_structure [] (IntScaling 1) 1 (Some ''/run'')
            (Some 2) example_tuning empty_world)
       = Inl (Exception ''mcsqs exited before timeout reached'')
   \<and> cwd (snd (run_mcsqs finishing_env example_structure [] (IntScaling 1) 1 (Some ''/run'')
                 (Some 2) example_tuning empty_world)) = ''/run''"
proof -
  let ?cmd = "[Word ''mcsqs'', Fmt ''-n'' (PyInt 2)]"
  have h1: "\<not> is_ordered example_structure" by code_simp
  txt \<open>The timeout path.\<close>
  let ?cmds = "find_sqs_cmds ?cmd example_tuning 1"
  let ?w1 = "snd (prepare_input example_env example_structure (IntScaling 1) (Some ''/run'')
                    empty_world)"
  let ?r = "wait_all (finish_time example_env) (1 * 60) 0 [0..<length ?cmds]"
  let ?w3 = "before_check example_env 1 ?cmds ?r (launched example_env [] ?cmds ?w1)"
  have "fst (prepare_input example_env example_structure (IntScaling 1) (Some ''/run'')
               empty_world) = Inr ?cmd"
    by code_simp
  then have h2: "prepare_input example_env example_structure (IntScaling 1) (Some ''/run'')
                   empty_world = (Inr ?cmd, ?w1)"
    by (metis prod.collapse)
  have h3: "(case Some 1 of None \<Rightarrow> cpu_count example_env | Some k \<Rightarrow> Some k) = Some 1"
    by simp
  have r: "?r = Expired 60 0" by code_simp
  have r': "wait_all (finish_time example_env) (1 * 60) 0 [0..<1] = Expired 60 0" by code_simp
  have h7: "\<not> (path_exists ?w3 ''bestsqs.out'' \<and> path_exists ?w3 ''bestcorr.out'')"
    by code_simp
  have c1: "cwd ?w1 = ''/run''" by code_simp
  note a = missing_best_files_raise [where clusters = "[]" and search_time = 1, OF h1 h2 h3 refl refl refl h7]
  txt \<open>The path of normal completion.\<close>
  let ?cmds2 = "find_sqs_cmds ?cmd example_tuning 2"
  let ?v1 = "snd (prepare_input finishing_env example_structure (IntScaling 1) (Some ''/run'')
                    empty_world)"
  let ?s = "wait_all (finish_time finishing_env) (1 * 60) 0 [0..<length ?cmds2]"
  let ?v3 = "before_check finishing_env 2 ?cmds2 ?s (launched finishing_env [] ?cmds2 ?v1)"
  have "fst (prepare_input finishing_env example_structure (IntScaling 1) (Some ''/run'')
               empty_world) = Inr ?cmd"
    by code_simp
  then have g2: "prepare_input finishing_env example_structure (IntScaling 1) (Some ''/run'')
                   empty_world = (Inr ?cmd, ?v1)"
    by (metis prod.collapse)
  have g3: "(case Some 2 of None \<Rightarrow> cpu_count finishing_env | Some k \<Rightarrow> Some k) = Some 2"
    by simp
  have s: "?s = Completed 9" by code_simp
  have s': "wait_all (finish_time finishing_env) (1 * 60) 0 [0..<2] = Completed 9" by code_simp
  have g7: "\<not> (path_exists ?v3 ''bestsqs.out'' \<and> path_exists ?v3 ''bestcorr.out'')"
    by code_simp
  have c2: "cwd ?v1 = ''/run''" by code_simp
  note b = missing_best_files_raise [where clusters = "[]" and search_time = 1, OF h1 g2 g3 refl refl refl g7]
  have e: "cwd empty_world = ''/home''" by (simp add: empty_world_def)
  from a b r s r' s' c1 c2 e show ?thesis by simp
qed

text \<open>
  C5: the objective function returned is read from the token after the last \<open>=\<close> of
  the last line of \<open>bestcorr.out\<close>: the text \<open>Perfect_match\<close> is returned as it is and
  any other token as its float. The result has one entry for every name that matched
  the glob, and for every such \<open>i\<close> the token of \<open>bestcorr<i>.out\<close> gives entry \<open>i\<close>
  the objective function of the run when it is \<open>Perfect_match\<close>, and its float
  otherwise. The token of a file without carriage returns whose last line is
  \<open>key=tok\<close> is \<open>tok\<close> without the white space around it.
\<close>

theorem sentinel_reconciliation:
  assumes "parse_sqs_path env path w = (Inr r, w')"
  shows "(\<exists>txt tok. read_file w (resolve (cwd w) path) ''bestcorr.out'' = Some txt
            \<and> last_token txt = Inr tok
            \<and> (if tok = ''Perfect_match'' then objective_function r = Perfect_match
               else \<exists>v. float_of env tok = Some v \<and> objective_function r = Numeric v))
       \<and> length (allsqs r) = length (matching_names w (resolve (cwd w) path))
       \<and> (\<forall>i<length (matching_names w (resolve (cwd w) path)). \<exists>txt tok.
            read_file w (resolve (cwd w) path) (''bestcorr'' @ string_of_nat (i + 1) @ ''.out'')
              = Some txt
            \<and> last_token txt = Inr tok
            \<and> (if tok = ''Perfect_match'' then snd (allsqs r ! i) = objective_function r
               else \<exists>v. float_of env tok = Some v \<and> snd (allsqs r ! i) = Numeric v))
       \<and> (\<forall>body key tok.
            CR \<notin> set (body @ key @ tok) \<and> LF \<notin> set (key @ tok) \<and> CHR ''='' \<notin> set tok
            \<and> (body = [] \<or> last body = LF)
            \<longrightarrow> last_token (body @ key @ ''='' @ tok @ [LF]) = Inr (strip tok))"
proof -
  let ?d = "resolve (cwd w) path"
  let ?w1 = "shell_str2cif env ?d ''bestsqs.out'' ''bestsqs.cif'' w"
  from parse_sqs_path_Inr [OF assms] obtain tok where
    tok: "load_token ?w1 ?d ''bestcorr.out'' = Inr tok"
    and obj: "best_objective env tok = Inr (objective_function r)"
    and loop: "parse_instances env ?d (objective_function r)
                 [0..<length (matching_names w ?d)] [] ?w1 = (Inr (allsqs r), w')"
    by blast
  have keep: "load_token ?w1 ?d name = load_token w ?d name" if "take 7 name \<noteq> ''bestsqs''" for name
    by (rule load_token_shell_str2cif) (use that in auto)
  have "load_token w ?d ''bestcorr.out'' = Inr tok"
    using tok keep [of "''bestcorr.out''"] by simp
  with obj have first: "\<exists>txt tok. read_file w ?d ''bestcorr.out'' = Some txt
            \<and> last_token txt = Inr tok
            \<and> (if tok = ''Perfect_match'' then objective_function r = Perfect_match
               else \<exists>v. float_of env tok = Some v \<and> objective_function r = Numeric v)"
    unfolding load_token_Inr best_objective_Inr by blast
  note res = parse_instances_result [OF loop]
  have len: "length (allsqs r) = length (matching_names w ?d)" using res by simp
  have "\<exists>txt tok.
            read_file w ?d (''bestcorr'' @ string_of_nat (i + 1) @ ''.out'') = Some txt
            \<and> last_token txt = Inr tok
            \<and> (if tok = ''Perfect_match'' then snd (allsqs r ! i) = objective_function r
               else \<exists>v. float_of env tok = Some v \<and> snd (allsqs r ! i) = Numeric v)"
    if i: "i < length (allsqs r)" for i
  proof -
    from res i len obtain tk where
      t1: "load_token ?w1 ?d (''bestcorr'' @ string_of_nat ([0..<length (matching_names w ?d)] ! i + 1) @ ''.out'') = Inr tk"
      and t2: "instance_objective env (objective_function r) tk = Inr (snd (allsqs r ! i))"
      by force
    have "[0..<length (matching_names w ?d)] ! i = i" using i len by simp
    with t1 have "load_token ?w1 ?d (''bestcorr'' @ string_of_nat (i + 1) @ ''.out'') = Inr tk"
      by simp
    then have "load_token w ?d (''bestcorr'' @ string_of_nat (i + 1) @ ''.out'') = Inr tk"
      using keep [of "''bestcorr'' @ string_of_nat (i + 1) @ ''.out''"] by simp
    with t2 show ?thesis
      unfolding load_token_Inr instance_objective_Inr by blast
  qed
  then have second: "\<forall>i<length (matching_names w ?d). \<exists>txt tok.
            read_file w ?d (''bestcorr'' @ string_of_nat (i + 1) @ ''.out'') = Some txt
            \<and> last_token txt = Inr tok
            \<and> (if tok = ''Perfect_match'' then snd (allsqs r ! i) = objective_function r
               else \<exists>v. float_of env tok = Some v \<and> snd (allsqs r ! i) = Numeric v)"
    unfolding len by blast
  have third: "\<forall>body key tok.
            CR \<notin> set (body @ key @ tok) \<and> LF \<notin> set (key @ tok) \<and> CHR ''='' \<notin> set tok
            \<and> (body = [] \<or> last body = LF)
            \<longrightarrow> last_token (body @ key @ ''='' @ tok @ [LF]) = Inr (strip tok)"
  proof (intro allI impI)
    fix body key tok :: string
    assume a: "CR \<notin> set (body @ key @ tok) \<and> LF \<notin> set (key @ tok)
                 \<and> CHR ''='' \<notin> set tok \<and> (body = [] \<or> last body = LF)"
    then have "CR \<notin> set (body @ key @ tok)" "LF \<notin> set (key @ tok)"
      "CHR ''='' \<notin> set tok" "body = [] \<or> last body = LF"
      by blast+
    from last_token_final_line [OF this]
    show "last_token (body @ key @ ''='' @ tok @ [LF]) = Inr (strip tok)" by (rule conjunct1)
  qed
  from first len second third show ?thesis by (intro conjI)
qed

theorem sentinel_reconciliation_witness:
  "parse_sqs_path example_env ''.'' single_world
     = (Inr single_result, snd (parse_sqs_path example_env ''.'' single_world))
   \<and> read_file single_world ''/run'' ''bestcorr.out'' = Some (report ''Perfect_match'')
   \<and> objective_function single_result = Perfect_match
   \<and> parse_sqs_path example_env ''.'' parallel_world
       = (Inr parallel_result, snd (parse_sqs_path example_env ''.'' parallel_world))
   \<and> length (matching_names parallel_world ''/run'') = 2
   \<and> length (allsqs parallel_result) = 2
   \<and> read_file parallel_world ''/run'' ''bestcorr.out'' = Some (report ''0.5'')
   \<and> read_file parallel_world ''/run'' ''bestcorr1.out'' = Some (report ''Perfect_match'')
   \<and> last_token (report ''Perfect_match'') = Inr ''Perfect_match''
   \<and> snd (allsqs parallel_result ! 0) = objective_function parallel_result
   \<and> objective_function parallel_result = Numeric (Finite (1 / 2))
   \<and> last_token ([] @ ''Objective_function'' @ ''='' @ '' Perfect_match'' @ [LF])
       = Inr (strip '' Perfect_match'')"
proof -
  have "fst (parse_sqs_path example_env ''.'' parallel_world) = Inr parallel_result"
    by code_simp
  then have p: "parse_sqs_path example_env ''.'' parallel_world
      = (Inr parallel_result, snd (parse_sqs_path example_env ''.'' parallel_world))"
    by (metis prod.collapse)
  have "fst (parse_sqs_path example_env ''.'' single_world) = Inr single_result"
    by code_simp
  then have s: "parse_sqs_path example_env ''.'' single_world
      = (Inr single_result, snd (parse_sqs_path example_env ''.'' single_world))"
    by (metis prod.collapse)
  have dp: "resolve (cwd parallel_world) ''.'' = ''/run''" by code_simp
  have ds: "resolve (cwd single_world) ''.'' = ''/run''" by code_simp
  have t: "last_token (report ''Perfect_match'') = Inr ''Perfect_match''"
    by code_simp
  have t5: "last_token (report ''0.5'') = Inr ''0.5''"
    by code_simp
  have f5: "float_of example_env ''0.5'' = Some (Finite (1 / 2))"
    by (simp add: example_env_def)
  have ne: "''0.5'' \<noteq> ''Perfect_match''" by simp
  have rs: "read_file single_world ''/run'' ''bestcorr.out'' = Some (report ''Perfect_match'')"
    by code_simp
  have rb: "read_file parallel_world ''/run'' ''bestcorr.out'' = Some (report ''0.5'')"
    by code_simp
  have rp: "read_file parallel_world ''/run'' ''bestcorr1.out''
              = Some (report ''Perfect_match'')"
    by code_simp
  have nm: "''bestcorr'' @ string_of_nat (0 + 1) @ ''.out'' = ''bestcorr1.out''"
    by code_simp
  have m: "length (matching_names parallel_world ''/run'') = 2"
    by code_simp
  note single = sentinel_reconciliation [OF s, unfolded ds]
  note par = sentinel_reconciliation [OF p, unfolded dp]
  from single rs t have a: "objective_function single_result = Perfect_match"
    by auto
  from par rb t5 f5 ne have c: "objective_function parallel_result = Numeric (Finite (1 / 2))"
    by auto
  from par m have l: "length (allsqs parallel_result) = 2"
    by simp
  from par m have "\<exists>txt tok. read_file parallel_world ''/run''
              (''bestcorr'' @ string_of_nat (0 + 1) @ ''.out'') = Some txt
            \<and> last_token txt = Inr tok
            \<and> (if tok = ''Perfect_match''
               then snd (allsqs parallel_result ! 0) = objective_function parallel_result
               else \<exists>v. float_of example_env tok = Some v
                      \<and> snd (allsqs parallel_result ! 0) = Numeric v)"
    by simp
  then have b: "snd (allsqs parallel_result ! 0) = objective_function parallel_result"
    unfolding nm using rp t by auto
  have "CR \<notin> set ([] @ ''Objective_function'' @ '' Perfect_match'')
          \<and> LF \<notin> set (''Objective_function'' @ '' Perfect_match'')
          \<and> CHR ''='' \<notin> set '' Perfect_match'' \<and> (([]::string) = [] \<or> last [] = LF)"
    by simp
  with single
  have e: "last_token ([] @ ''Objective_function'' @ ''='' @ '' Perfect_match'' @ [LF])
             = Inr (strip '' Perfect_match'')"
    by blast
  from s rs a p m l rb rp t b c e show ?thesis by (intro conjI)
qed

text \<open>
  C6, as the code has it. The claim that a scalar scaling which is not positive is
  rejected fails (see the next theorem). What holds: with a disordered structure and a
  run directory that can be entered, a scalar scaling that is not a whole number makes
  the run raise \<open>ValueError\<close> before any process is started, and every scalar scaling
  that is a whole number, of any sign, passes the check, so that the cluster generation
  is started.
\<close>

theorem scalar_scaling_validation:
  assumes "\<not> is_ordered st" and "is_scalar scaling"
    and "dir = None \<or> dir = Some [] \<or> run_directory env dir w \<in> set (dirs w)"
  shows "(\<not> integer_valued scaling \<longrightarrow>
            fst (run_mcsqs env st clusters scaling search_time dir instances tu w)
              = Inl (ValueError ''Scaling should be an integer, not {}'')
            \<and> trace (snd (run_mcsqs env st clusters scaling search_time dir instances tu w))
                = trace w)
       \<and> (integer_valued scaling \<longrightarrow>
            fst (prepare_input env st scaling dir w)
              = Inr [Word ''mcsqs'', Fmt ''-n'' (times_atoms env scaling (num_sites st))]
            \<and> (\<exists>rest. trace (snd (run_mcsqs env st clusters scaling search_time dir instances tu w))
                  = trace w @ Popen (generate_clusters_cmd clusters) # rest))"
proof -
  note prep = prepare_input_scalar [OF assms(2) chdir_succeeds [OF assms(3)], of st]
  note iff = mod_1_is_true_iff [OF assms(2)]
  show ?thesis
  proof (cases "integer_valued scaling")
    case False
    with prep iff assms(1) show ?thesis
      by (simp add: run_mcsqs_def Let_def)
  next
    case True
    with prep iff have p: "prepare_input env st scaling dir w =
        (Inr [Word ''mcsqs'', Fmt ''-n'' (times_atoms env scaling (num_sites st))],
         write_file (run_directory env dir w) ''rndstr.in'' (to_file env st)
           ((make_run_directory env dir w)\<lparr>cwd := run_directory env dir w\<rparr>))"
      by simp
    from run_mcsqs_trace [OF assms(1) p] p True show ?thesis by simp
  qed
qed

theorem scalar_scaling_validation_witness:
  "\<not> integer_valued (FloatScaling (Finite (3 / 2)))
   \<and> fst (run_mcsqs example_env example_structure [] (FloatScaling (Finite (3 / 2))) 1
            (Some ''/run'') (Some 1) example_tuning empty_world)
       = Inl (ValueError ''Scaling should be an integer, not {}'')
   \<and> trace (snd (run_mcsqs example_env example_structure [] (FloatScaling (Finite (3 / 2))) 1
                    (Some ''/run'') (Some 1) example_tuning empty_world)) = []
   \<and> integer_valued (FloatScaling (Finite 2))
   \<and> fst (prepare_input example_env example_structure (FloatScaling (Finite 2)) (Some ''/run'')
            empty_world)
       = Inr [Word ''mcsqs'', Fmt ''-n'' (PyFloat (Finite 4))]"
proof -
  have h1: "\<not> is_ordered example_structure" by code_simp
  have d: "Some ''/run'' = None \<or> Some ''/run'' = Some []
             \<or> run_directory example_env (Some ''/run'') empty_world \<in> set (dirs empty_world)"
    by code_simp
  have "(3 / 2 :: rat) \<noteq> of_int k" for k
  proof
    assume "(3 / 2 :: rat) = of_int k"
    then have "(of_int 3 :: rat) = of_int (2 * k)" by simp
    then have "3 = 2 * k" by (simp only: of_int_eq_iff)
    then show False by presburger
  qed
  then have n: "\<not> integer_valued (FloatScaling (Finite (3 / 2)))"
    by (auto simp: Ints_def)
  have i: "integer_valued (FloatScaling (Finite 2))" by simp
  have t: "trace empty_world = []" by (simp add: empty_world_def)
  have k: "times_atoms example_env (FloatScaling (Finite 2)) (num_sites example_structure)
             = PyFloat (Finite 4)"
    by (simp add: num_sites_def example_structure_def example_env_def)
  note a = scalar_scaling_validation [where env = example_env and clusters = "[]"
      and search_time = 1 and instances = "Some 1" and tu = example_tuning,
      OF h1 _ d, of "FloatScaling (Finite (3 / 2))"]
  note b = scalar_scaling_validation [where env = example_env and clusters = "[]"
      and search_time = 1 and instances = "Some 1" and tu = example_tuning,
      OF h1 _ d, of "FloatScaling (Finite 2)"]
  from a b n i t k show ?thesis by simp
qed

text \<open>
  C6 as stated does not hold: the scalings \<open>-2\<close> and \<open>0\<close> pass the validation, and
  the run with \<open>-2\<close> starts the cluster generation and a search process with
  \<open>-n -4\<close>.
\<close>

theorem nonpositive_scaling_is_accepted:
  "fst (prepare_input example_env example_structure (IntScaling (- 2)) (Some ''/run'') empty_world)
     = Inr [Word ''mcsqs'', Fmt ''-n'' (PyInt (- 4))]
   \<and> fst (prepare_input example_env example_structure (IntScaling 0) (Some ''/run'') empty_world)
     = Inr [Word ''mcsqs'', Fmt ''-n'' (PyInt 0)]
   \<and> trace (snd (run_mcsqs example_env example_structure [] (IntScaling (- 2)) 1 (Some ''/run'')
                    (Some 1) example_tuning empty_world))
       = [Popen [Word ''mcsqs''],
          Popen (Word ''mcsqs'' # Fmt ''-n'' (PyInt (- 4)) # add_ons example_tuning),
          Kill 0, Reap 0]
   \<and> fst (run_mcsqs example_env example_structure [] (IntScaling (- 2)) 1 (Some ''/run'')
            (Some 1) example_tuning empty_world)
       = Inl (TimeoutError ''Cluster expansion took too long.'')"
  by code_simp







text \<open>
  C9: for an ordered structure the entry point raises \<open>ValueError\<close> and leaves the
  world as it was: the trace of process operations has not grown, and neither the
  working directory nor any file has changed.
\<close>

theorem ordered_structure_is_rejected:
  assumes "is_ordered st"
  shows "run_mcsqs env st clusters scaling search_time dir instances tu w
           = (Inl (ValueError ''Pick a disordered structure''), w)
       \<and> trace (snd (run_mcsqs env st clusters scaling search_time dir instances tu w))
           = trace w"
  using assms by (simp add: run_mcsqs_def)

theorem ordered_structure_is_rejected_witness:
  "is_ordered ordered_structure
   \<and> run_mcsqs example_env ordered_structure [] (IntScaling 1) 1 None None example_tuning empty_world
       = (Inl (ValueError ''Pick a disordered structure''), empty_world)
   \<and> trace (snd (run_mcsqs example_env ordered_structure [] (IntScaling 1) 1 None None
                    example_tuning empty_world)) = trace empty_world"
proof -
  have h: "is_ordered ordered_structure" by code_simp
  from h ordered_structure_is_rejected [OF h] show ?thesis by simp
qed

text \<open>
  C10: when \<open>instances\<close> is omitted and the host reports \<open>n\<close> cores (at least one), the
  search processes started are those for \<open>n\<close> instances: for \<open>n > 1\<close> one process per
  index \<open>1, ..., n\<close>, each with its flag \<open>-ip\<close>, and the single process without
  \<open>-ip\<close> exactly when \<open>n = 1\<close>.
\<close>

theorem default_instances_is_cpu_count:
  assumes "\<not> is_ordered st"
    and "prepare_input env st scaling dir w = (Inr cmd, w1)"
    and "cpu_count env = Some n"
    and "1 \<le> n"
  shows "(\<exists>rest. trace (snd (run_mcsqs env st clusters scaling search_time dir None tu w))
            = trace w @ Popen (generate_clusters_cmd clusters)
                # map Popen (find_sqs_cmds cmd tu n) @ rest)
       \<and> (1 < n \<longrightarrow> find_sqs_cmds cmd tu n
             = map (\<lambda>i. cmd @ add_ons tu @ [Fmt ''-ip'' (PyInt (int i + 1))]) [0..<nat n])
       \<and> (find_sqs_cmds cmd tu n = [cmd @ add_ons tu] \<longleftrightarrow> n = 1)"
proof -
  let ?cmds = "find_sqs_cmds cmd tu n"
  have run: "run_mcsqs env st clusters scaling search_time dir None tu w =
     finish_search env n (cwd w) ?cmds
       (wait_all (finish_time env) (search_time * 60) 0 [0..<length ?cmds])
       (launched env clusters ?cmds w1)"
    by (rule run_mcsqs_search) (use assms in simp_all)
  from finish_search_trace obtain rest where
    "trace (snd (finish_search env n (cwd w) ?cmds
       (wait_all (finish_time env) (search_time * 60) 0 [0..<length ?cmds])
       (launched env clusters ?cmds w1))) = trace (launched env clusters ?cmds w1) @ rest"
    by blast
  with run have a: "\<exists>rest. trace (snd (run_mcsqs env st clusters scaling search_time dir None tu w))
            = trace w @ Popen (generate_clusters_cmd clusters) # map Popen ?cmds @ rest"
    by (simp add: launched_fields prepare_input_trace [OF assms(2)])
  have b: "1 < n \<longrightarrow> ?cmds
             = map (\<lambda>i. cmd @ add_ons tu @ [Fmt ''-ip'' (PyInt (int i + 1))]) [0..<nat n]"
    by (simp add: find_sqs_cmds_def)
  have c: "?cmds = [cmd @ add_ons tu] \<longleftrightarrow> n = 1"
  proof (cases "1 < n")
    case True
    then have "length ?cmds = nat n" by (simp add: find_sqs_cmds_def)
    with True have "length ?cmds \<noteq> 1" by simp
    then have "?cmds \<noteq> [cmd @ add_ons tu]" by auto
    with True show ?thesis by simp
  next
    case False
    with assms(4) show ?thesis by (simp add: find_sqs_cmds_def)
  qed
  from a b c show ?thesis by blast
qed

theorem default_instances_is_cpu_count_witness:
  "cpu_count example_env = Some 4
   \<and> (\<exists>rest. trace (snd (run_mcsqs example_env example_structure [] (IntScaling 1) 1
                            (Some ''/run'') None example_tuning empty_world))
         = trace empty_world @ Popen (generate_clusters_cmd [])
             # map Popen (find_sqs_cmds [Word ''mcsqs'', Fmt ''-n'' (PyInt 2)] example_tuning 4)
             @ rest)
   \<and> find_sqs_cmds [Word ''mcsqs'', Fmt ''-n'' (PyInt 2)] example_tuning 4
       = map (\<lambda>i. [Word ''mcsqs'', Fmt ''-n'' (PyInt 2)] @ add_ons example_tuning
                    @ [Fmt ''-ip'' (PyInt (int i + 1))]) [0..<nat 4]
   \<and> cpu_count single_core_env = Some 1
   \<and> find_sqs_cmds [Word ''mcsqs'', Fmt ''-n'' (PyInt 2)] example_tuning 1
       = [[Word ''mcsqs'', Fmt ''-n'' (PyInt 2)] @ add_ons example_tuning]"
proof -
  let ?cmd = "[Word ''mcsqs'', Fmt ''-n'' (PyInt 2)]"
  have h1: "\<not> is_ordered example_structure" by code_simp
  have "fst (prepare_input example_env example_structure (IntScaling 1) (Some ''/run'')
               empty_world) = Inr ?cmd"
    by code_simp
  then have h2: "prepare_input example_env example_structure (IntScaling 1) (Some ''/run'')
                   empty_world
      = (Inr ?cmd, snd (prepare_input example_env example_structure (IntScaling 1)
                          (Some ''/run'') empty_world))"
    by (metis prod.collapse)
  have "fst (prepare_input single_core_env example_structure (IntScaling 1) (Some ''/run'')
               empty_world) = Inr ?cmd"
    by code_simp
  then have g2: "prepare_input single_core_env example_structure (IntScaling 1) (Some ''/run'')
                   empty_world
      = (Inr ?cmd, snd (prepare_input single_core_env example_structure (IntScaling 1)
                          (Some ''/run'') empty_world))"
    by (metis prod.collapse)
  have h3: "cpu_count example_env = Some 4" by (simp add: example_env_def)
  have g3: "cpu_count single_core_env = Some 1" by (simp add: single_core_env_def)
  have h4: "(1::int) \<le> 4" and g4: "(1::int) \<le> 1" and lt: "(1::int) < 4" by simp_all
  note a = default_instances_is_cpu_count [where clusters = "[]" and search_time = 1
      and tu = example_tuning, OF h1 h2 h3 h4]
  note b = default_instances_is_cpu_count [where clusters = "[]" and search_time = 1
      and tu = example_tuning, OF h1 g2 g3 g4]
  from a have a1: "\<exists>rest. trace (snd (run_mcsqs example_env example_structure [] (IntScaling 1) 1
                            (Some ''/run'') None example_tuning empty_world))
         = trace empty_world @ Popen (generate_clusters_cmd [])
             # map Popen (find_sqs_cmds ?cmd example_tuning 4) @ rest"
    by blast
  from a lt have a2: "find_sqs_cmds ?cmd example_tuning 4
       = map (\<lambda>i. ?cmd @ add_ons example_tuning @ [Fmt ''-ip'' (PyInt (int i + 1))]) [0..<nat 4]"
    by blast
  from b have b3: "find_sqs_cmds ?cmd example_tuning 1 = [?cmd @ add_ons example_tuning]"
    by blast
  from h3 a1 a2 g3 b3 show ?thesis by blast
qed

end
